theory Spec2Isabelle
  imports Complex_Main "HOL-Library.Word"
begin

unbundle bit_operations_syntax

section \<open>Flight controls: report decoding, gamepad mapping, change detection, capture stop\<close>

text \<open>
  The development embeds \<^verbatim>\<open>FlightControlsService.ts\<close>.  JavaScript numbers that hold
  measurements (normalised axes, deadzone, sensitivity, range limits) are reals.  The
  arithmetic of the mapping pipeline, whose results are rounded to integers and sent
  on, is a parameter: every addition, subtraction, multiplication and division yields
  the exact result rounded by the arithmetic at hand, which is IEEE binary64 rounding
  for the program as it runs.  The decoder forms one quotient per axis, which is kept
  exact; the number that the running program stores in the sample is that quotient
  rounded once.  Infinities and NaN are not part of the model: on the samples that the
  decoder leaves, which lie between 0 and 1, and with a deadzone of at most one half,
  no operation of the pipeline yields NaN, and a product too large for a binary64
  number is clamped to the same bound as the number that stands for it here.  Numbers
  that are integers by construction (bytes read from the buffer, rounded stick and
  trigger values, the hat position) are \<open>int\<close>, array indices and byte offsets are
  \<open>nat\<close>, and the button bitmask, which is only ever combined with \<^verbatim>\<open>|=\<close>, is a
  32-bit word.
\<close>

subsection \<open>Data model\<close>

type_synonym Buffer = "8 word list"

record AxisField =
  byteOffset :: nat
  byteCount :: nat
  littleEndian :: bool
  unsignedF :: bool
  rangeMin :: real
  rangeMax :: real

record ButtonField =
  btn_byteOffset :: nat
  bitIndex :: nat

record HatField =
  hat_byteOffset :: nat
  bitOffset :: nat
  bitCount :: nat
  centerValue :: int

record FlightHidReportLayout =
  skipReportId :: bool
  axisDefs :: "AxisField list"
  buttonDefs :: "ButtonField list"
  hat :: "HatField option"

record ParsedReport =
  axes :: "real list"
  buttons :: "bool list"
  hatSwitch :: int

datatype AxisTarget =
  LeftStickX | LeftStickY | RightStickX | RightStickY | LeftTrigger | RightTrigger

datatype Curve = Linear | Expo

record AxisMapping =
  sourceIndex :: nat
  target :: AxisTarget
  inverted :: bool
  deadzone :: real
  sensitivity :: real
  curve :: Curve

record ButtonMapping =
  btn_sourceIndex :: nat
  targetButton :: "32 word"

record FlightProfile =
  axisMappings :: "AxisMapping list"
  buttonMappings :: "ButtonMapping list"

record FlightGamepadState =
  controllerId :: int
  gp_buttons :: "32 word"
  leftTrigger :: int
  rightTrigger :: int
  leftStickX :: int
  leftStickY :: int
  rightStickX :: int
  rightStickY :: int
  gp_connected :: bool

text \<open>
  The four D-pad bit constants come from \<^verbatim>\<open>inputConstants\<close>, which is not part of the
  sources at hand; they are a parameter of the mapping.
\<close>

record DpadConstants =
  GAMEPAD_DPAD_UP :: "32 word"
  GAMEPAD_DPAD_DOWN :: "32 word"
  GAMEPAD_DPAD_LEFT :: "32 word"
  GAMEPAD_DPAD_RIGHT :: "32 word"

subsection \<open>JavaScript and Node primitives\<close>

datatype error = ERR_OUT_OF_RANGE | HID_CLOSE_ERROR

text \<open>\<^verbatim>\<open>Math.round\<close> rounds to the nearest integer, ties towards plus infinity.\<close>

definition Math_round :: "real \<Rightarrow> int" where
  "Math_round x = \<lfloor>x + 1 / 2\<rfloor>"

text \<open>
  The arithmetic of numbers: \<open>rd\<close> rounds the exact result of an operation to a number,
  and \<open>pow2\<close> is \<^verbatim>\<open>Math.pow\<close> at the exponent 2, whose result the language leaves
  to the implementation.
\<close>

record Arith =
  rd :: "real \<Rightarrow> real"
  pow2 :: "real \<Rightarrow> real"

text \<open>Rounding to the nearest integer, ties to the even one.\<close>

definition rne :: "real \<Rightarrow> int" where
  "rne y =
     (let f = \<lfloor>y\<rfloor>; r = y - of_int f
      in if r < 1 / 2 then f
         else if 1 / 2 < r then f + 1
         else if even f then f else f + 1)"

text \<open>
  The binary exponent of a binary64 number of the magnitude at hand: the largest \<open>e\<close>
  from \<open>-1021\<close> to \<open>1023\<close> with \<open>2\<^sup>e \<le> x\<close>, and \<open>-1022\<close>, the exponent of the
  subnormal numbers, when there is none.
\<close>

fun binade_from :: "nat \<Rightarrow> real \<Rightarrow> int" where
  "binade_from 0 x = - 1022"
| "binade_from (Suc n) x =
     (if 2 powi (int (Suc n) - 1022) \<le> x then int (Suc n) - 1022 else binade_from n x)"

definition binade :: "real \<Rightarrow> int" where
  "binade x = binade_from 2045 \<bar>x\<bar>"

text \<open>
  IEEE binary64 rounding to nearest, ties to even: the 53-bit significand is the
  real scaled by its exponent and rounded to an integer.
\<close>

definition fl64 :: "real \<Rightarrow> real" where
  "fl64 x = of_int (rne (x * 2 powi (52 - binade x))) * 2 powi (binade x - 52)"

text \<open>
  The arithmetic of the running program, with the square correctly rounded, and the
  arithmetic without rounding.
\<close>

definition doubleArith :: Arith where
  "doubleArith = \<lparr>rd = fl64, pow2 = (\<lambda>x. fl64 (x * x))\<rparr>"

definition exactArith :: Arith where
  "exactArith = \<lparr>rd = (\<lambda>x. x), pow2 = (\<lambda>x. x\<^sup>2)\<rparr>"

text \<open>The 32-bit integer operators \<^verbatim>\<open>&\<close>, \<^verbatim>\<open><<\<close> and \<^verbatim>\<open>>>\<close> on integral operands.\<close>

definition js_and :: "int \<Rightarrow> int \<Rightarrow> int" where
  "js_and a b = sint ((word_of_int a :: 32 word) AND word_of_int b)"

definition js_shl :: "int \<Rightarrow> nat \<Rightarrow> int" where
  "js_shl a n = sint (push_bit (n mod 32) (word_of_int a :: 32 word))"

definition js_sar :: "int \<Rightarrow> nat \<Rightarrow> int" where
  "js_sar a n = sint (signed_drop_bit (n mod 32) (word_of_int a :: 32 word))"

text \<open>Node's buffer reads raise \<^verbatim>\<open>ERR_OUT_OF_RANGE\<close> when the bytes are not all inside.\<close>

definition readUInt8 :: "Buffer \<Rightarrow> nat \<Rightarrow> error + int" where
  "readUInt8 bytes i =
     (if i < length bytes then Inr (uint (bytes ! i)) else Inl ERR_OUT_OF_RANGE)"

definition readUInt16LE :: "Buffer \<Rightarrow> nat \<Rightarrow> error + int" where
  "readUInt16LE bytes i =
     (if i + 1 < length bytes
      then Inr (uint (bytes ! i) + uint (bytes ! (i + 1)) * 256)
      else Inl ERR_OUT_OF_RANGE)"

definition readUInt16BE :: "Buffer \<Rightarrow> nat \<Rightarrow> error + int" where
  "readUInt16BE bytes i =
     (if i + 1 < length bytes
      then Inr (uint (bytes ! i) * 256 + uint (bytes ! (i + 1)))
      else Inl ERR_OUT_OF_RANGE)"

subsection \<open>parseReport\<close>

text \<open>The raw value of one axis field, after the signed reinterpretation.\<close>

definition readAxisRaw :: "Buffer \<Rightarrow> nat \<Rightarrow> AxisField \<Rightarrow> error + int" where
  "readAxisRaw bytes byteIdx axisDef =
     (if byteCount axisDef = 2 then
        (case (if littleEndian axisDef then readUInt16LE bytes byteIdx
               else readUInt16BE bytes byteIdx) of
           Inl e \<Rightarrow> Inl e
         | Inr rawValue \<Rightarrow>
             Inr (if \<not> unsignedF axisDef \<and> rawValue > 32767 then rawValue - 65536
                  else rawValue))
      else
        (case readUInt8 bytes byteIdx of
           Inl e \<Rightarrow> Inl e
         | Inr rawValue \<Rightarrow>
             Inr (if \<not> unsignedF axisDef \<and> rawValue > 127 then rawValue - 256
                  else rawValue)))"

text \<open>The body of the loop over \<^verbatim>\<open>layout.axes\<close>: the value pushed for one field.\<close>

definition parseAxis :: "Buffer \<Rightarrow> nat \<Rightarrow> AxisField \<Rightarrow> error + real" where
  "parseAxis bytes offset axisDef =
     (let byteIdx = offset + byteOffset axisDef in
      if byteIdx + byteCount axisDef > length bytes then Inr 0
      else
        (case readAxisRaw bytes byteIdx axisDef of
           Inl e \<Rightarrow> Inl e
         | Inr rawValue \<Rightarrow>
             (let range = rangeMax axisDef - rangeMin axisDef;
                  normalized =
                    (if range > 0 then (of_int rawValue - rangeMin axisDef) / range else 0)
              in Inr (max 0 (min 1 normalized)))))"

fun parseAxes :: "Buffer \<Rightarrow> nat \<Rightarrow> AxisField list \<Rightarrow> error + real list" where
  "parseAxes bytes offset [] = Inr []"
| "parseAxes bytes offset (axisDef # rest) =
     (case parseAxis bytes offset axisDef of
        Inl e \<Rightarrow> Inl e
      | Inr v \<Rightarrow>
          (case parseAxes bytes offset rest of
             Inl e \<Rightarrow> Inl e
           | Inr vs \<Rightarrow> Inr (v # vs)))"

text \<open>The body of the loop over \<^verbatim>\<open>layout.buttons\<close>.\<close>

definition parseButton :: "Buffer \<Rightarrow> nat \<Rightarrow> ButtonField \<Rightarrow> error + bool" where
  "parseButton bytes offset btnDef =
     (let byteIdx = offset + btn_byteOffset btnDef in
      if byteIdx \<ge> length bytes then Inr False
      else
        (case readUInt8 bytes byteIdx of
           Inl e \<Rightarrow> Inl e
         | Inr byte \<Rightarrow> Inr (js_and byte (js_shl 1 (bitIndex btnDef)) \<noteq> 0)))"

fun parseButtons :: "Buffer \<Rightarrow> nat \<Rightarrow> ButtonField list \<Rightarrow> error + bool list" where
  "parseButtons bytes offset [] = Inr []"
| "parseButtons bytes offset (btnDef # rest) =
     (case parseButton bytes offset btnDef of
        Inl e \<Rightarrow> Inl e
      | Inr b \<Rightarrow>
          (case parseButtons bytes offset rest of
             Inl e \<Rightarrow> Inl e
           | Inr bs \<Rightarrow> Inr (b # bs)))"

definition parseHat :: "Buffer \<Rightarrow> nat \<Rightarrow> HatField option \<Rightarrow> error + int" where
  "parseHat bytes offset h =
     (case h of
        None \<Rightarrow> Inr (- 1)
      | Some hatDef \<Rightarrow>
          (let byteIdx = offset + hat_byteOffset hatDef in
           if byteIdx < length bytes then
             (case readUInt8 bytes byteIdx of
                Inl e \<Rightarrow> Inl e
              | Inr byte \<Rightarrow>
                  (let hatValue =
                         js_and (js_sar byte (bitOffset hatDef))
                                (js_shl 1 (bitCount hatDef) - 1)
                   in Inr (if hatValue = centerValue hatDef then - 1 else hatValue)))
           else Inr (- 1)))"

definition parseReport :: "Buffer \<Rightarrow> FlightHidReportLayout \<Rightarrow> error + ParsedReport" where
  "parseReport data layout =
     (let offset = (if skipReportId layout then 1 else 0) in
      case parseAxes data offset (axisDefs layout) of
        Inl e \<Rightarrow> Inl e
      | Inr axs \<Rightarrow>
          (case parseButtons data offset (buttonDefs layout) of
             Inl e \<Rightarrow> Inl e
           | Inr bts \<Rightarrow>
               (case parseHat data offset (hat layout) of
                  Inl e \<Rightarrow> Inl e
                | Inr h \<Rightarrow> Inr \<lparr>axes = axs, buttons = bts, hatSwitch = h\<rparr>)))"

subsection \<open>mapToGamepad\<close>

text \<open>
  In the functions below every arithmetic operation of the source is followed by the
  rounding \<open>rd A\<close> of the arithmetic \<open>A\<close>; negation, the absolute value and the
  comparisons are exact.
\<close>

definition applyDeadzone :: "Arith \<Rightarrow> real \<Rightarrow> real \<Rightarrow> real" where
  "applyDeadzone A value dz =
     (if value < dz then 0 else rd A (rd A (value - dz) / rd A (1 - dz)))"

definition applyStickDeadzone :: "Arith \<Rightarrow> real \<Rightarrow> real \<Rightarrow> real" where
  "applyStickDeadzone A value dz =
     (let abs = \<bar>value\<bar> in
      if abs < dz then 0
      else (let sign = (if value \<ge> 0 then 1 else - 1)
            in rd A (sign * rd A (rd A (abs - dz) / rd A (1 - dz)))))"

definition applyCurve :: "Arith \<Rightarrow> real \<Rightarrow> real \<Rightarrow> Curve \<Rightarrow> real" where
  "applyCurve A value sens c =
     (if c = Expo then rd A (pow2 A value * sens) else rd A (value * sens))"

definition applyStickCurve :: "Arith \<Rightarrow> real \<Rightarrow> real \<Rightarrow> Curve \<Rightarrow> real" where
  "applyStickCurve A value sens c =
     (let sign = (if value \<ge> 0 then 1 else - 1);
          abs = \<bar>value\<bar>
      in if c = Expo then rd A (rd A (sign * pow2 A abs) * sens) else rd A (value * sens))"

text \<open>The value \<^verbatim>\<open>clamped\<close> of the trigger branch of the axis loop.\<close>

definition triggerClamped :: "Arith \<Rightarrow> AxisMapping \<Rightarrow> real \<Rightarrow> int" where
  "triggerClamped A mapping rawNormalized =
     (let value = (if inverted mapping then rd A (1 - rawNormalized) else rawNormalized);
          value = applyDeadzone A value (deadzone mapping);
          value = applyCurve A value (sensitivity mapping) (curve mapping)
      in max 0 (min 255 (Math_round (rd A (value * 255)))))"

text \<open>The value \<^verbatim>\<open>clamped\<close> of the stick branch of the axis loop.\<close>

definition stickClamped :: "Arith \<Rightarrow> AxisMapping \<Rightarrow> real \<Rightarrow> int" where
  "stickClamped A mapping rawNormalized =
     (let value = rd A (rd A (rawNormalized * 2) - 1);
          value = (if inverted mapping then - value else value);
          value = applyStickDeadzone A value (deadzone mapping);
          value = applyStickCurve A value (sensitivity mapping) (curve mapping)
      in max (- 32768) (min 32767 (Math_round (rd A (value * 32767)))))"

text \<open>The body of the loop over \<^verbatim>\<open>profile.axisMappings\<close>.\<close>

definition mapAxis ::
  "Arith \<Rightarrow> ParsedReport \<Rightarrow> AxisMapping \<Rightarrow> FlightGamepadState \<Rightarrow> FlightGamepadState" where
  "mapAxis A parsed mapping state =
     (if sourceIndex mapping \<ge> length (axes parsed) then state
      else
        (let rawNormalized = axes parsed ! sourceIndex mapping in
         if target mapping = LeftTrigger \<or> target mapping = RightTrigger then
           (let clamped = triggerClamped A mapping rawNormalized in
            if target mapping = LeftTrigger then state\<lparr>leftTrigger := clamped\<rparr>
            else state\<lparr>rightTrigger := clamped\<rparr>)
         else
           (let clamped = stickClamped A mapping rawNormalized in
            case target mapping of
              LeftStickX \<Rightarrow> state\<lparr>leftStickX := clamped\<rparr>
            | LeftStickY \<Rightarrow> state\<lparr>leftStickY := clamped\<rparr>
            | RightStickX \<Rightarrow> state\<lparr>rightStickX := clamped\<rparr>
            | RightStickY \<Rightarrow> state\<lparr>rightStickY := clamped\<rparr>
            | _ \<Rightarrow> state)))"

fun mapAxes ::
  "Arith \<Rightarrow> ParsedReport \<Rightarrow> AxisMapping list \<Rightarrow> FlightGamepadState \<Rightarrow> FlightGamepadState" where
  "mapAxes A parsed [] state = state"
| "mapAxes A parsed (mapping # rest) state =
     mapAxes A parsed rest (mapAxis A parsed mapping state)"

text \<open>The body of the loop over \<^verbatim>\<open>profile.buttonMappings\<close>.\<close>

definition mapButton :: "ParsedReport \<Rightarrow> ButtonMapping \<Rightarrow> FlightGamepadState \<Rightarrow> FlightGamepadState" where
  "mapButton parsed mapping state =
     (if btn_sourceIndex mapping \<ge> length (buttons parsed) then state
      else if buttons parsed ! btn_sourceIndex mapping
        then state\<lparr>gp_buttons := gp_buttons state OR targetButton mapping\<rparr>
      else state)"

fun mapButtons :: "ParsedReport \<Rightarrow> ButtonMapping list \<Rightarrow> FlightGamepadState \<Rightarrow> FlightGamepadState" where
  "mapButtons parsed [] state = state"
| "mapButtons parsed (mapping # rest) state =
     mapButtons parsed rest (mapButton parsed mapping state)"

text \<open>The hat-switch block that ends \<^verbatim>\<open>mapToGamepad\<close>.\<close>

definition foldHat :: "DpadConstants \<Rightarrow> ParsedReport \<Rightarrow> FlightGamepadState \<Rightarrow> FlightGamepadState" where
  "foldHat c parsed state =
     (if hatSwitch parsed \<ge> 0 then
        (let hat = hatSwitch parsed;
             s1 = (if hat = 0 \<or> hat = 1 \<or> hat = 7
                   then state\<lparr>gp_buttons := gp_buttons state OR GAMEPAD_DPAD_UP c\<rparr>
                   else state);
             s2 = (if hat = 1 \<or> hat = 2 \<or> hat = 3
                   then s1\<lparr>gp_buttons := gp_buttons s1 OR GAMEPAD_DPAD_RIGHT c\<rparr>
                   else s1);
             s3 = (if hat = 3 \<or> hat = 4 \<or> hat = 5
                   then s2\<lparr>gp_buttons := gp_buttons s2 OR GAMEPAD_DPAD_DOWN c\<rparr>
                   else s2);
             s4 = (if hat = 5 \<or> hat = 6 \<or> hat = 7
                   then s3\<lparr>gp_buttons := gp_buttons s3 OR GAMEPAD_DPAD_LEFT c\<rparr>
                   else s3)
         in s4)
      else state)"

definition initialGamepadState :: "int \<Rightarrow> FlightGamepadState" where
  "initialGamepadState slot =
     \<lparr>controllerId = slot, gp_buttons = 0, leftTrigger = 0, rightTrigger = 0,
      leftStickX = 0, leftStickY = 0, rightStickX = 0, rightStickY = 0,
      gp_connected = True\<rparr>"

text \<open>\<open>controllerSlot\<close> is the field of the service that the function reads.\<close>

definition mapToGamepad ::
  "Arith \<Rightarrow> DpadConstants \<Rightarrow> int \<Rightarrow> ParsedReport \<Rightarrow> FlightProfile \<Rightarrow> FlightGamepadState" where
  "mapToGamepad A c controllerSlot parsed profile =
     foldHat c parsed
       (mapButtons parsed (buttonMappings profile)
          (mapAxes A parsed (axisMappings profile) (initialGamepadState controllerSlot)))"

subsection \<open>The service state, change detection and stopCapture\<close>

record FlightControlsState =
  fc_connected :: bool
  fc_deviceName :: string
  fc_axes :: "real list"
  fc_buttons :: "bool list"
  fc_hatSwitch :: int
  fc_rawBytes :: "8 word list"

datatype IpcMessage =
  FLIGHT_STATE_UPDATE FlightControlsState
| FLIGHT_GAMEPAD_STATE FlightGamepadState

text \<open>
  An open HID handle; \<open>closeThrows\<close> says whether its \<^verbatim>\<open>close()\<close> raises.  A browser
  window; \<open>isDestroyed\<close> is the answer of \<^verbatim>\<open>isDestroyed()\<close>.
\<close>

record HidDevice =
  handleId :: nat
  closeThrows :: bool

record BrowserWindow =
  isDestroyed :: bool

text \<open>
  The fields of the service, and two logs of its effects: the messages handed to
  \<^verbatim>\<open>webContents.send\<close> and the handles on which \<^verbatim>\<open>close()\<close> was called, oldest first.
\<close>

record Service =
  device :: "HidDevice option"
  devicePath :: "string option"
  deviceName :: string
  enabled :: bool
  controllerSlot :: int
  mainWindow :: "BrowserWindow option"
  disposed :: bool
  lastRawBytes :: "8 word list"
  reportLayout :: "FlightHidReportLayout option"
  profile :: "FlightProfile option"
  lastGamepadState :: "FlightGamepadState option"
  sent :: "IpcMessage list"
  closeCalls :: "nat list"

definition hasGamepadStateChanged :: "Service \<Rightarrow> FlightGamepadState \<Rightarrow> bool" where
  "hasGamepadStateChanged s newState =
     (case lastGamepadState s of
        None \<Rightarrow> True
      | Some prev \<Rightarrow>
          gp_buttons prev \<noteq> gp_buttons newState \<or>
          leftTrigger prev \<noteq> leftTrigger newState \<or>
          rightTrigger prev \<noteq> rightTrigger newState \<or>
          leftStickX prev \<noteq> leftStickX newState \<or>
          leftStickY prev \<noteq> leftStickY newState \<or>
          rightStickX prev \<noteq> rightStickX newState \<or>
          rightStickY prev \<noteq> rightStickY newState)"

definition hid_close :: "HidDevice \<Rightarrow> error + unit" where
  "hid_close d = (if closeThrows d then Inl HID_CLOSE_ERROR else Inr ())"

definition sendConnectedState :: "bool \<Rightarrow> Service \<Rightarrow> Service" where
  "sendConnectedState conn s =
     (case mainWindow s of
        None \<Rightarrow> s
      | Some w \<Rightarrow>
          if isDestroyed w then s
          else
            (let state = \<lparr>fc_connected = conn, fc_deviceName = deviceName s,
                          fc_axes = [], fc_buttons = [], fc_hatSwitch = - 1,
                          fc_rawBytes = []\<rparr>;
                 s1 = s\<lparr>sent := sent s @ [FLIGHT_STATE_UPDATE state]\<rparr>
             in if \<not> conn then
                  (let disconnectState =
                         \<lparr>controllerId = controllerSlot s1, gp_buttons = 0,
                          leftTrigger = 0, rightTrigger = 0, leftStickX = 0,
                          leftStickY = 0, rightStickX = 0, rightStickY = 0,
                          gp_connected = False\<rparr>
                   in s1\<lparr>sent := sent s1 @ [FLIGHT_GAMEPAD_STATE disconnectState]\<rparr>)
                else s1))"

text \<open>A string is truthy when it is present and not empty.\<close>

definition truthy :: "string option \<Rightarrow> bool" where
  "truthy p = (case p of None \<Rightarrow> False | Some str \<Rightarrow> str \<noteq> [])"

definition stopCapture :: "Service \<Rightarrow> Service" where
  "stopCapture s =
     (let s1 = (case device s of
                  None \<Rightarrow> s
                | Some d \<Rightarrow>
                    (let called = s\<lparr>closeCalls := closeCalls s @ [handleId d]\<rparr> in
                     (case hid_close d of
                        Inl e \<Rightarrow> called\<lparr>device := None\<rparr>
                      | Inr u \<Rightarrow> called\<lparr>device := None\<rparr>)))
      in if truthy (devicePath s1) then
           (sendConnectedState False s1)
             \<lparr>devicePath := None, lastGamepadState := None, lastRawBytes := []\<rparr>
         else s1)"

definition isCapturing :: "Service \<Rightarrow> bool" where
  "isCapturing s = (device s \<noteq> None)"

text \<open>The state the constructor builds.\<close>

definition newService :: "bool \<Rightarrow> int \<Rightarrow> Service" where
  "newService en slot =
     \<lparr>device = None, devicePath = None, deviceName = [], enabled = en,
      controllerSlot = max 0 (min 3 slot), mainWindow = None, disposed = False,
      lastRawBytes = [], reportLayout = None, profile = None, lastGamepadState = None,
      sent = [], closeCalls = []\<rparr>"

section \<open>Reference formulas of the specification\<close>

text \<open>
  Modelled from the spec: the declaration of \<^verbatim>\<open>FlightHidReportLayout\<close> in
  \<^verbatim>\<open>@shared/gfn\<close> is not part of the sources at hand.  The data model gives an axis
  field a byte count of one or two.
\<close>

definition wf_layout :: "FlightHidReportLayout \<Rightarrow> bool" where
  "wf_layout layout =
     list_all (\<lambda>a. byteCount a = 1 \<or> byteCount a = 2) (axisDefs layout)"

definition baseOffset :: "FlightHidReportLayout \<Rightarrow> nat" where
  "baseOffset layout = (if skipReportId layout then 1 else 0)"

text \<open>The unsigned number that a run of bytes spells, least significant byte first.\<close>

fun le_value :: "8 word list \<Rightarrow> int" where
  "le_value [] = 0"
| "le_value (b # bs) = uint b + 256 * le_value bs"

text \<open>
  The axis value as the specification words it: read \<open>byteCount\<close> bytes at the offset
  with the declared endianness, reinterpret as signed above the unsigned midpoint,
  normalise over the range, clamp to the unit interval; zero when bytes are missing.
\<close>

definition spec_axis_raw :: "Buffer \<Rightarrow> nat \<Rightarrow> AxisField \<Rightarrow> int" where
  "spec_axis_raw bytes idx a =
     (let n = byteCount a;
          field = take n (drop idx bytes);
          raw = le_value (if littleEndian a then field else rev field)
      in if \<not> unsignedF a \<and> raw > 2 ^ (8 * n - 1) - 1 then raw - 2 ^ (8 * n) else raw)"

definition spec_normalize :: "AxisField \<Rightarrow> int \<Rightarrow> real" where
  "spec_normalize a raw =
     (if rangeMax a - rangeMin a > 0
      then (of_int raw - rangeMin a) / (rangeMax a - rangeMin a) else 0)"

definition clamp :: "real \<Rightarrow> real \<Rightarrow> real \<Rightarrow> real" where
  "clamp v lo hi = max lo (min hi v)"

definition clampInt :: "int \<Rightarrow> int \<Rightarrow> int \<Rightarrow> int" where
  "clampInt v lo hi = max lo (min hi v)"

definition spec_axis :: "Buffer \<Rightarrow> nat \<Rightarrow> AxisField \<Rightarrow> real" where
  "spec_axis bytes offset a =
     (if offset + byteOffset a + byteCount a > length bytes then 0
      else clamp (spec_normalize a (spec_axis_raw bytes (offset + byteOffset a) a)) 0 1)"

text \<open>
  The arithmetics that the properties of the pipeline are stated for: the rounding is
  monotone, odd and idempotent, it leaves the multiples of one quarter with a
  numerator below \<open>2\<^sup>5\<^sup>3\<close> as they are, and the square is exact at 0 and at one half.
  Binary64 rounding and exact arithmetic are both of this kind.
\<close>

definition wf_arith :: "Arith \<Rightarrow> bool" where
  "wf_arith A \<longleftrightarrow>
     (\<forall>x y. x \<le> y \<longrightarrow> rd A x \<le> rd A y) \<and>
     (\<forall>x. rd A (- x) = - rd A x) \<and>
     (\<forall>x. rd A (rd A x) = rd A x) \<and>
     (\<forall>k::int. \<bar>k\<bar> < 2 ^ 53 \<longrightarrow> rd A (of_int k / 4) = of_int k / 4) \<and>
     pow2 A 0 = 0 \<and> pow2 A (1 / 2) = 1 / 4"

text \<open>
  The trigger pipeline of the specification, with the clamp before the scaling and
  every operation in the arithmetic at hand.
\<close>

definition spec_unsigned_deadzone :: "Arith \<Rightarrow> real \<Rightarrow> real \<Rightarrow> real" where
  "spec_unsigned_deadzone A v dz =
     (if v < dz then 0 else rd A (rd A (v - dz) / rd A (1 - dz)))"

definition spec_trigger_adjusted :: "Arith \<Rightarrow> AxisMapping \<Rightarrow> real \<Rightarrow> real" where
  "spec_trigger_adjusted A m raw =
     (let v = spec_unsigned_deadzone A (if inverted m then rd A (1 - raw) else raw) (deadzone m)
      in case curve m of
           Linear \<Rightarrow> rd A (v * sensitivity m)
         | Expo \<Rightarrow> rd A (pow2 A v * sensitivity m))"

definition spec_trigger_scaled :: "Arith \<Rightarrow> real \<Rightarrow> int" where
  "spec_trigger_scaled A v = clampInt (Math_round (rd A (clamp v 0 1 * 255))) 0 255"

text \<open>The stick pipeline of the specification, again with the clamp before the scaling.\<close>

definition spec_signed_deadzone :: "Arith \<Rightarrow> real \<Rightarrow> real \<Rightarrow> real" where
  "spec_signed_deadzone A v dz =
     (if \<bar>v\<bar> < dz then 0 else sgn v * rd A (rd A (\<bar>v\<bar> - dz) / rd A (1 - dz)))"

definition spec_bipolar :: "Arith \<Rightarrow> AxisMapping \<Rightarrow> real \<Rightarrow> real" where
  "spec_bipolar A m raw =
     (if inverted m then - rd A (rd A (raw * 2) - 1) else rd A (rd A (raw * 2) - 1))"

definition spec_stick_adjusted :: "Arith \<Rightarrow> AxisMapping \<Rightarrow> real \<Rightarrow> real" where
  "spec_stick_adjusted A m raw =
     (let v = spec_signed_deadzone A (spec_bipolar A m raw) (deadzone m)
      in case curve m of
           Linear \<Rightarrow> rd A (v * sensitivity m)
         | Expo \<Rightarrow> rd A (rd A (sgn v * pow2 A \<bar>v\<bar>) * sensitivity m))"

definition spec_stick_scaled :: "Arith \<Rightarrow> real \<Rightarrow> int" where
  "spec_stick_scaled A v =
     clampInt (Math_round (rd A (clamp v (- 1) 1 * 32767))) (- 32768) 32767"

text \<open>The three-neighbour table of hat positions.\<close>

definition spec_hat_bits :: "DpadConstants \<Rightarrow> int \<Rightarrow> 32 word" where
  "spec_hat_bits c h =
     (if h \<in> {7, 0, 1} then GAMEPAD_DPAD_UP c else 0) OR
     (if h \<in> {1, 2, 3} then GAMEPAD_DPAD_RIGHT c else 0) OR
     (if h \<in> {3, 4, 5} then GAMEPAD_DPAD_DOWN c else 0) OR
     (if h \<in> {5, 6, 7} then GAMEPAD_DPAD_LEFT c else 0)"

section \<open>Auxiliary notions for stating the properties\<close>

text \<open>The field of the gamepad state that an axis target names.\<close>

fun targetField :: "AxisTarget \<Rightarrow> FlightGamepadState \<Rightarrow> int" where
  "targetField LeftStickX g = leftStickX g"
| "targetField LeftStickY g = leftStickY g"
| "targetField RightStickX g = rightStickX g"
| "targetField RightStickY g = rightStickY g"
| "targetField LeftTrigger g = leftTrigger g"
| "targetField RightTrigger g = rightTrigger g"

definition isTrigger :: "AxisTarget \<Rightarrow> bool" where
  "isTrigger t = (t = LeftTrigger \<or> t = RightTrigger)"

text \<open>
  The mapping that decides a target: the last one in the list that names the target
  and whose source index is inside the sample, if there is one.
\<close>

definition effective :: "ParsedReport \<Rightarrow> AxisMapping list \<Rightarrow> AxisTarget \<Rightarrow> AxisMapping option" where
  "effective parsed ms t =
     (case filter (\<lambda>m. target m = t \<and> sourceIndex m < length (axes parsed)) ms of
        [] \<Rightarrow> None
      | m # rest \<Rightarrow> Some (last (m # rest)))"

text \<open>The seven fields that the change detector compares.\<close>

definition comparedFields ::
  "FlightGamepadState \<Rightarrow> 32 word \<times> int \<times> int \<times> int \<times> int \<times> int \<times> int" where
  "comparedFields g =
     (gp_buttons g, leftTrigger g, rightTrigger g, leftStickX g, leftStickY g,
      rightStickX g, rightStickY g)"

text \<open>A profile without the mapping entries that point outside the sample.\<close>

definition dropOutOfRange :: "ParsedReport \<Rightarrow> FlightProfile \<Rightarrow> FlightProfile" where
  "dropOutOfRange parsed p =
     p\<lparr>axisMappings :=
         filter (\<lambda>m. \<not> sourceIndex m \<ge> length (axes parsed)) (axisMappings p),
       buttonMappings :=
         filter (\<lambda>m. \<not> btn_sourceIndex m \<ge> length (buttons parsed)) (buttonMappings p)\<rparr>"

text \<open>A state update that reports the device as disconnected.\<close>

fun isDisconnectedUpdate :: "IpcMessage \<Rightarrow> bool" where
  "isDisconnectedUpdate (FLIGHT_STATE_UPDATE st) = (\<not> fc_connected st)"
| "isDisconnectedUpdate (FLIGHT_GAMEPAD_STATE g) = False"

fun isGamepadUpdate :: "IpcMessage \<Rightarrow> bool" where
  "isGamepadUpdate (FLIGHT_STATE_UPDATE st) = False"
| "isGamepadUpdate (FLIGHT_GAMEPAD_STATE g) = True"

definition liveWindow :: "Service \<Rightarrow> bool" where
  "liveWindow s = (case mainWindow s of None \<Rightarrow> False | Some w \<Rightarrow> \<not> isDestroyed w)"

text \<open>The values of the D-pad bits in the XInput button layout, used in the examples.\<close>

definition xinputDpad :: DpadConstants where
  "xinputDpad =
     \<lparr>GAMEPAD_DPAD_UP = 1, GAMEPAD_DPAD_DOWN = 2, GAMEPAD_DPAD_LEFT = 4,
      GAMEPAD_DPAD_RIGHT = 8\<rparr>"

text \<open>
  The value that an in-range mapping writes into the field of its target: the trigger
  branch for the two triggers, the stick branch for everything else.
\<close>

definition written :: "Arith \<Rightarrow> AxisTarget \<Rightarrow> AxisMapping \<Rightarrow> ParsedReport \<Rightarrow> int" where
  "written A t m parsed =
     (if isTrigger t then triggerClamped A m (axes parsed ! sourceIndex m)
      else stickClamped A m (axes parsed ! sourceIndex m))"

text \<open>Mappings, and a service in the middle of a capture, used in the examples.\<close>

definition exampleTrigger :: AxisMapping where
  "exampleTrigger = \<lparr>sourceIndex = 0, target = LeftTrigger, inverted = False, deadzone = 0,
            sensitivity = 1, curve = Expo\<rparr>"

definition linearTrigger :: "real \<Rightarrow> real \<Rightarrow> AxisMapping" where
  "linearTrigger dz sens = \<lparr>sourceIndex = 0, target = LeftTrigger, inverted = False,
            deadzone = dz, sensitivity = sens, curve = Linear\<rparr>"

definition exampleStick :: "real \<Rightarrow> real \<Rightarrow> AxisMapping" where
  "exampleStick dz sens = \<lparr>sourceIndex = 0, target = LeftStickX, inverted = False, deadzone = dz,
            sensitivity = sens, curve = Linear\<rparr>"

definition capturingService :: "BrowserWindow option \<Rightarrow> Service" where
  "capturingService w =
     (newService True 0)
       \<lparr>device := Some \<lparr>handleId = 1, closeThrows = True\<rparr>, devicePath := Some ''hid0'',
        deviceName := ''Stick'', mainWindow := w,
        lastRawBytes := [1, 2], lastGamepadState := Some (initialGamepadState 0)\<rparr>"

text \<open>The two messages that announce a disconnect.\<close>

definition disconnectMessages :: "Service \<Rightarrow> IpcMessage list" where
  "disconnectMessages s =
     [FLIGHT_STATE_UPDATE
        \<lparr>fc_connected = False, fc_deviceName = deviceName s, fc_axes = [], fc_buttons = [],
         fc_hatSwitch = - 1, fc_rawBytes = []\<rparr>,
      FLIGHT_GAMEPAD_STATE
        \<lparr>controllerId = controllerSlot s, gp_buttons = 0, leftTrigger = 0, rightTrigger = 0,
         leftStickX = 0, leftStickY = 0, rightStickX = 0, rightStickY = 0,
         gp_connected = False\<rparr>]"

section \<open>Change detection\<close>

text \<open>
  C7.  The change detector answers true exactly when no previous state is retained or
  one of the seven compared fields (buttons, the two triggers, the four stick axes)
  differs between the retained state and the next one.  Hence, with a retained state,
  it answers false exactly for the states that agree with the retained one everywhere
  except possibly in \<open>controllerId\<close> and \<open>connected\<close>.
\<close>

theorem hasGamepadStateChanged_spec:
  "(hasGamepadStateChanged s newState \<longleftrightarrow>
      (lastGamepadState s = None \<or>
       (\<exists>prev. lastGamepadState s = Some prev \<and>
               comparedFields prev \<noteq> comparedFields newState)))
   \<and> (\<forall>prev. lastGamepadState s = Some prev \<longrightarrow>
         (\<not> hasGamepadStateChanged s newState \<longleftrightarrow>
            (\<exists>slot conn. newState = prev\<lparr>controllerId := slot, gp_connected := conn\<rparr>)))"
proof (cases "lastGamepadState s")
  case None
  then show ?thesis by (simp add: hasGamepadStateChanged_def)
next
  case (Some prev)
  have same: "comparedFields prev = comparedFields newState \<longleftrightarrow>
      (\<exists>slot conn. newState = prev\<lparr>controllerId := slot, gp_connected := conn\<rparr>)"
  proof
    assume "comparedFields prev = comparedFields newState"
    then have "newState = prev\<lparr>controllerId := controllerId newState,
                               gp_connected := gp_connected newState\<rparr>"
      by (simp add: comparedFields_def)
    then show "\<exists>slot conn. newState = prev\<lparr>controllerId := slot, gp_connected := conn\<rparr>"
      by blast
  next
    assume "\<exists>slot conn. newState = prev\<lparr>controllerId := slot, gp_connected := conn\<rparr>"
    then obtain slot conn
      where "newState = prev\<lparr>controllerId := slot, gp_connected := conn\<rparr>"
      by blast
    then show "comparedFields prev = comparedFields newState"
      by (simp add: comparedFields_def)
  qed
  have "hasGamepadStateChanged s newState \<longleftrightarrow>
      comparedFields prev \<noteq> comparedFields newState"
    using Some by (auto simp: hasGamepadStateChanged_def comparedFields_def)
  with Some same show ?thesis by simp
qed

theorem hasGamepadStateChanged_spec_witness:
  "hasGamepadStateChanged (newService True 0) (initialGamepadState 0)
   \<and> \<not> hasGamepadStateChanged
         ((newService True 0)\<lparr>lastGamepadState := Some (initialGamepadState 0)\<rparr>)
         ((initialGamepadState 0)\<lparr>controllerId := 2, gp_connected := False\<rparr>)
   \<and> hasGamepadStateChanged
         ((newService True 0)\<lparr>lastGamepadState := Some (initialGamepadState 0)\<rparr>)
         ((initialGamepadState 0)\<lparr>leftStickY := 5\<rparr>)"
  using hasGamepadStateChanged_spec [of "newService True 0" "initialGamepadState 0"]
    hasGamepadStateChanged_spec
      [of "(newService True 0)\<lparr>lastGamepadState := Some (initialGamepadState 0)\<rparr>"
          "(initialGamepadState 0)\<lparr>controllerId := 2, gp_connected := False\<rparr>"]
    hasGamepadStateChanged_spec
      [of "(newService True 0)\<lparr>lastGamepadState := Some (initialGamepadState 0)\<rparr>"
          "(initialGamepadState 0)\<lparr>leftStickY := 5\<rparr>"]
  by (simp add: newService_def initialGamepadState_def comparedFields_def)

section \<open>Report decoding\<close>

subsection \<open>The decoder against the reference formulas\<close>

lemma take2_drop:
  "idx + 2 \<le> length (bytes :: 'a list) \<Longrightarrow> take 2 (drop idx bytes) = [bytes ! idx, bytes ! (idx + 1)]"
proof -
  assume a: "idx + 2 \<le> length bytes"
  have "take (Suc (Suc 0)) (drop idx bytes) = [bytes ! idx, bytes ! (idx + 1)]"
    using a by (simp add: take_Suc_conv_app_nth)
  then show ?thesis by (simp add: numeral_2_eq_2)
qed

lemma take1_drop:
  "idx + 1 \<le> length (bytes :: 'a list) \<Longrightarrow> take (Suc 0) (drop idx bytes) = [bytes ! idx]"
  by (simp add: take_Suc_conv_app_nth)

lemma readAxisRaw_two:
  assumes "byteCount a = 2" and "idx + 2 \<le> length bytes"
  shows "readAxisRaw bytes idx a = Inr (spec_axis_raw bytes idx a)"
  using assms
  by (simp add: readAxisRaw_def spec_axis_raw_def readUInt16LE_def readUInt16BE_def
      take2_drop Let_def)

lemma readAxisRaw_one:
  assumes "byteCount a = 1" and "idx + 1 \<le> length bytes"
  shows "readAxisRaw bytes idx a = Inr (spec_axis_raw bytes idx a)"
  using assms
  by (simp add: readAxisRaw_def spec_axis_raw_def readUInt8_def take1_drop Let_def)

lemma parseAxis_ok:
  assumes "byteCount a = 1 \<or> byteCount a = 2"
  shows "parseAxis bytes off a = Inr (spec_axis bytes off a)"
proof (cases "off + byteOffset a + byteCount a > length bytes")
  case True
  then show ?thesis by (simp add: parseAxis_def spec_axis_def)
next
  case False
  then have inside: "off + byteOffset a + byteCount a \<le> length bytes" by simp
  have "readAxisRaw bytes (off + byteOffset a) a =
      Inr (spec_axis_raw bytes (off + byteOffset a) a)"
    using assms inside readAxisRaw_one [of a "off + byteOffset a" bytes]
      readAxisRaw_two [of a "off + byteOffset a" bytes] by auto
  then show ?thesis
    using False
    by (simp add: parseAxis_def spec_axis_def spec_normalize_def clamp_def Let_def)
qed

lemma parseAxes_ok:
  "list_all (\<lambda>a. byteCount a = 1 \<or> byteCount a = 2) defs \<Longrightarrow>
   parseAxes bytes off defs = Inr (map (spec_axis bytes off) defs)"
  by (induction defs) (simp_all add: parseAxis_ok)


lemma parseButton_total: "\<exists>b. parseButton bytes off d = Inr b"
  by (auto simp: parseButton_def readUInt8_def Let_def)

lemma parseButton_short:
  "off + btn_byteOffset d \<ge> length bytes \<Longrightarrow> parseButton bytes off d = Inr False"
  by (simp add: parseButton_def)

lemma parseButtons_total:
  "\<exists>bs. parseButtons bytes off defs = Inr bs \<and> length bs = length defs \<and>
        (\<forall>j<length defs. parseButton bytes off (defs ! j) = Inr (bs ! j))"
proof (induction defs)
  case Nil
  then show ?case by simp
next
  case (Cons d defs)
  from Cons obtain bs where bs: "parseButtons bytes off defs = Inr bs"
    "length bs = length defs"
    "\<forall>j<length defs. parseButton bytes off (defs ! j) = Inr (bs ! j)" by blast
  obtain b where b: "parseButton bytes off d = Inr b"
    using parseButton_total by blast
  have "\<forall>j<length (d # defs). parseButton bytes off ((d # defs) ! j) = Inr ((b # bs) ! j)"
    using b bs(3) by (auto simp: nth_Cons split: nat.splits)
  then show ?case using b bs by simp
qed

lemma parseHat_total: "\<exists>h. parseHat bytes off hatDef = Inr h"
  by (cases hatDef) (simp_all add: parseHat_def readUInt8_def Let_def)

lemma parseHat_short:
  "off + hat_byteOffset hatDef \<ge> length bytes \<Longrightarrow> parseHat bytes off (Some hatDef) = Inr (- 1)"
  by (simp add: parseHat_def Let_def)

lemma parseReport_ok:
  assumes "wf_layout layout"
    and "parseButtons data (baseOffset layout) (buttonDefs layout) = Inr bs"
    and "parseHat data (baseOffset layout) (hat layout) = Inr h"
  shows "parseReport data layout =
     Inr \<lparr>axes = map (spec_axis data (baseOffset layout)) (axisDefs layout),
          buttons = bs, hatSwitch = h\<rparr>"
  using assms parseAxes_ok [of "axisDefs layout" data "baseOffset layout"]
  by (simp add: parseReport_def wf_layout_def baseOffset_def Let_def)

text \<open>
  Outside the data model the decoder can raise: a field of zero bytes that starts at
  the end of the buffer passes the length check and is then read.
\<close>

lemma parseReport_zero_byteCount_raises:
  "parseReport []
     \<lparr>skipReportId = False,
      axisDefs = [\<lparr>byteOffset = 0, byteCount = 0, littleEndian = True, unsignedF = True,
                   rangeMin = 0, rangeMax = 255\<rparr>],
      buttonDefs = [], hat = None\<rparr> = Inl ERR_OUT_OF_RANGE"
  by (simp add: parseReport_def parseAxis_def readAxisRaw_def readUInt8_def)

subsection \<open>Totality and per-field defaults\<close>

text \<open>
  C2.  For every buffer and every layout of the data model, \<open>parseReport\<close> returns a
  report and does not raise.  The report has one value per axis field and per button
  field; each value is the one that the field decodes to on its own, whatever the other
  fields are; an axis field whose bytes reach past the end of the buffer gives 0, and a
  button field whose byte lies past the end gives false.
\<close>

theorem parseReport_total:
  assumes "wf_layout layout"
  shows "\<exists>r. parseReport data layout = Inr r
    \<and> length (axes r) = length (axisDefs layout)
    \<and> length (buttons r) = length (buttonDefs layout)
    \<and> (\<forall>i<length (axisDefs layout).
          parseAxis data (baseOffset layout) (axisDefs layout ! i) = Inr (axes r ! i)
          \<and> (baseOffset layout + byteOffset (axisDefs layout ! i)
                + byteCount (axisDefs layout ! i) > length data \<longrightarrow> axes r ! i = 0))
    \<and> (\<forall>j<length (buttonDefs layout).
          parseButton data (baseOffset layout) (buttonDefs layout ! j) = Inr (buttons r ! j)
          \<and> (baseOffset layout + btn_byteOffset (buttonDefs layout ! j) \<ge> length data
               \<longrightarrow> buttons r ! j = False))
    \<and> parseHat data (baseOffset layout) (hat layout) = Inr (hatSwitch r)"
proof -
  let ?off = "baseOffset layout"
  obtain bs where bs: "parseButtons data ?off (buttonDefs layout) = Inr bs"
    "length bs = length (buttonDefs layout)"
    "\<forall>j<length (buttonDefs layout). parseButton data ?off (buttonDefs layout ! j) = Inr (bs ! j)"
    using parseButtons_total by blast
  obtain h where h: "parseHat data ?off (hat layout) = Inr h"
    using parseHat_total by blast
  let ?r = "\<lparr>axes = map (spec_axis data ?off) (axisDefs layout), buttons = bs, hatSwitch = h\<rparr>"
  have r: "parseReport data layout = Inr ?r"
    using parseReport_ok [OF assms bs(1) h] .
  have ax: "\<forall>i<length (axisDefs layout).
      parseAxis data ?off (axisDefs layout ! i) = Inr (axes ?r ! i)
      \<and> (?off + byteOffset (axisDefs layout ! i) + byteCount (axisDefs layout ! i) > length data
           \<longrightarrow> axes ?r ! i = 0)"
  proof (intro allI impI)
    fix i assume i: "i < length (axisDefs layout)"
    then have "byteCount (axisDefs layout ! i) = 1 \<or> byteCount (axisDefs layout ! i) = 2"
      using assms by (simp add: wf_layout_def list_all_length)
    then have "parseAxis data ?off (axisDefs layout ! i) =
        Inr (spec_axis data ?off (axisDefs layout ! i))"
      by (rule parseAxis_ok)
    then show "parseAxis data ?off (axisDefs layout ! i) = Inr (axes ?r ! i)
      \<and> (?off + byteOffset (axisDefs layout ! i) + byteCount (axisDefs layout ! i) > length data
           \<longrightarrow> axes ?r ! i = 0)"
      using i by (simp add: spec_axis_def)
  qed
  have bt: "\<forall>j<length (buttonDefs layout).
      parseButton data ?off (buttonDefs layout ! j) = Inr (buttons ?r ! j)
      \<and> (?off + btn_byteOffset (buttonDefs layout ! j) \<ge> length data
           \<longrightarrow> buttons ?r ! j = False)"
  proof (intro allI impI conjI)
    fix j assume j: "j < length (buttonDefs layout)"
    show "parseButton data ?off (buttonDefs layout ! j) = Inr (buttons ?r ! j)"
      using bs(3) j by simp
    assume "?off + btn_byteOffset (buttonDefs layout ! j) \<ge> length data"
    then have "parseButton data ?off (buttonDefs layout ! j) = Inr False"
      by (rule parseButton_short)
    then show "buttons ?r ! j = False" using bs(3) j by simp
  qed
  have "length (axes ?r) = length (axisDefs layout)" by simp
  moreover have "length (buttons ?r) = length (buttonDefs layout)" using bs(2) by simp
  moreover have "parseHat data ?off (hat layout) = Inr (hatSwitch ?r)" using h by simp
  ultimately show ?thesis using r ax bt by blast
qed

theorem parseReport_total_witness:
  "wf_layout \<lparr>skipReportId = True,
       axisDefs = [\<lparr>byteOffset = 0, byteCount = 1, littleEndian = True, unsignedF = True,
                    rangeMin = 0, rangeMax = 255\<rparr>,
                   \<lparr>byteOffset = 1, byteCount = 2, littleEndian = True, unsignedF = True,
                    rangeMin = 0, rangeMax = 1023\<rparr>],
       buttonDefs = [\<lparr>btn_byteOffset = 0, bitIndex = 7\<rparr>, \<lparr>btn_byteOffset = 2, bitIndex = 0\<rparr>],
       hat = None\<rparr>
   \<and> parseReport [1, 255, 3]
       \<lparr>skipReportId = True,
       axisDefs = [\<lparr>byteOffset = 0, byteCount = 1, littleEndian = True, unsignedF = True,
                    rangeMin = 0, rangeMax = 255\<rparr>,
                   \<lparr>byteOffset = 1, byteCount = 2, littleEndian = True, unsignedF = True,
                    rangeMin = 0, rangeMax = 1023\<rparr>],
       buttonDefs = [\<lparr>btn_byteOffset = 0, bitIndex = 7\<rparr>, \<lparr>btn_byteOffset = 2, bitIndex = 0\<rparr>],
       hat = None\<rparr>
     = Inr \<lparr>axes = [1, 0], buttons = [True, False], hatSwitch = - 1\<rparr>"
proof -
  let ?L = "\<lparr>skipReportId = True,
       axisDefs = [\<lparr>byteOffset = 0, byteCount = 1, littleEndian = True, unsignedF = True,
                    rangeMin = 0, rangeMax = 255\<rparr>,
                   \<lparr>byteOffset = 1, byteCount = 2, littleEndian = True, unsignedF = True,
                    rangeMin = 0, rangeMax = 1023\<rparr>],
       buttonDefs = [\<lparr>btn_byteOffset = 0, bitIndex = 7\<rparr>, \<lparr>btn_byteOffset = 2, bitIndex = 0\<rparr>],
       hat = None\<rparr>"
  have wf: "wf_layout ?L" by (simp add: wf_layout_def)
  from parseReport_total [OF wf, of "[1, 255, 3]"]
  obtain r where r: "parseReport [1, 255, 3] ?L = Inr r"
    by (elim exE conjE)
  have "parseReport [1, 255, 3] ?L =
      Inr \<lparr>axes = [1, 0], buttons = [True, False], hatSwitch = - 1\<rparr>"
    by (simp add: parseReport_def parseAxis_def readAxisRaw_def readUInt8_def
      parseButton_def parseHat_def js_and_def js_shl_def)
  with wf r show ?thesis by simp
qed

subsection \<open>Axis values\<close>



subsection \<open>The hat field on a short buffer\<close>

text \<open>
  C10.  For every layout of the data model that defines a hat field, and every buffer
  that does not contain the hat byte, \<open>parseReport\<close> returns a report whose hat switch
  is \<open>-1\<close>, the neutral position.
\<close>

theorem parseReport_hat_short:
  assumes "wf_layout layout" and "hat layout = Some hatDef"
    and "baseOffset layout + hat_byteOffset hatDef \<ge> length data"
  shows "\<exists>r. parseReport data layout = Inr r \<and> hatSwitch r = - 1"
proof -
  obtain bs where bs: "parseButtons data (baseOffset layout) (buttonDefs layout) = Inr bs"
    using parseButtons_total by blast
  have "parseHat data (baseOffset layout) (hat layout) = Inr (- 1)"
    using assms(2,3) by (simp add: parseHat_short)
  from parseReport_ok [OF assms(1) bs this] show ?thesis by simp
qed

theorem parseReport_hat_short_witness:
  "wf_layout \<lparr>skipReportId = False, axisDefs = [], buttonDefs = [],
       hat = Some \<lparr>hat_byteOffset = 2, bitOffset = 0, bitCount = 4, centerValue = 8\<rparr>\<rparr>
   \<and> baseOffset \<lparr>skipReportId = False, axisDefs = [], buttonDefs = [],
       hat = Some \<lparr>hat_byteOffset = 2, bitOffset = 0, bitCount = 4, centerValue = 8\<rparr>\<rparr>
       + hat_byteOffset \<lparr>hat_byteOffset = 2, bitOffset = 0, bitCount = 4, centerValue = 8\<rparr>
       \<ge> length [3 :: 8 word, 3]
   \<and> parseReport [3, 3] \<lparr>skipReportId = False, axisDefs = [], buttonDefs = [],
       hat = Some \<lparr>hat_byteOffset = 2, bitOffset = 0, bitCount = 4, centerValue = 8\<rparr>\<rparr>
     = Inr \<lparr>axes = [], buttons = [], hatSwitch = - 1\<rparr>"
proof -
  let ?H = "\<lparr>hat_byteOffset = 2, bitOffset = 0, bitCount = 4, centerValue = 8\<rparr>"
  let ?L = "\<lparr>skipReportId = False, axisDefs = [], buttonDefs = [], hat = Some ?H\<rparr>"
  have wf: "wf_layout ?L" by (simp add: wf_layout_def)
  have h: "hat ?L = Some ?H" by simp
  have short: "baseOffset ?L + hat_byteOffset ?H \<ge> length [3 :: 8 word, 3]"
    by (simp add: baseOffset_def)
  from parseReport_hat_short [OF wf h short]
  obtain r where r: "parseReport [3, 3] ?L = Inr r" and n: "hatSwitch r = - 1"
    by (elim exE conjE)
  have "parseReport [3, 3] ?L = Inr \<lparr>axes = [], buttons = [], hatSwitch = - 1\<rparr>"
    by (simp add: parseReport_def parseHat_def)
  with wf short r n show ?thesis by simp
qed

section \<open>Binary64 rounding\<close>

text \<open>
  The rounding \<open>fl64\<close> is monotone, odd and idempotent, and it leaves every number
  \<open>k * 2\<^sup>j\<close> with \<open>\<bar>k\<bar> < 2\<^sup>5\<^sup>3\<close> and \<open>j \<ge> -1074\<close> as it is.  A number whose binary
  exponent is known is rounded by rounding its scaled significand (lemma \<open>fl64_eval\<close>),
  which is how the examples below are computed.
\<close>

lemma rne_bounds: "\<lfloor>y\<rfloor> \<le> rne y \<and> rne y \<le> \<lfloor>y\<rfloor> + 1"
  by (simp add: rne_def Let_def)

lemma rne_of_int: "rne (of_int k) = k"
  by (simp add: rne_def)

lemma rne_mono:
  assumes "x \<le> y"
  shows "rne x \<le> rne y"
proof (cases "\<lfloor>x\<rfloor> < \<lfloor>y\<rfloor>")
  case True
  have "rne x \<le> \<lfloor>x\<rfloor> + 1" using rne_bounds by blast
  also have "\<dots> \<le> \<lfloor>y\<rfloor>" using True by simp
  also have "\<dots> \<le> rne y" using rne_bounds by blast
  finally show ?thesis .
next
  case False
  have "\<lfloor>x\<rfloor> \<le> \<lfloor>y\<rfloor>" using assms by (rule floor_mono)
  with False have eq: "\<lfloor>x\<rfloor> = \<lfloor>y\<rfloor>" by simp
  have "x - of_int \<lfloor>y\<rfloor> \<le> y - of_int \<lfloor>y\<rfloor>" using assms by simp
  then show ?thesis
    by (simp add: rne_def Let_def eq)
qed

lemma rne_minus: "rne (- y) = - rne y"
proof (cases "y = of_int \<lfloor>y\<rfloor>")
  case True
  then obtain k where "y = of_int k" ..
  then have "- y = of_int (- k)" by simp
  then show ?thesis unfolding \<open>y = of_int k\<close> by (simp add: rne_of_int flip: of_int_minus)
next
  case False
  have fl: "\<lfloor>- y\<rfloor> = - \<lfloor>y\<rfloor> - 1"
    using False by (simp add: floor_minus ceiling_altdef)
  from False have "of_int \<lfloor>y\<rfloor> \<noteq> y" by metis
  then have lt: "of_int \<lfloor>y\<rfloor> < y" using of_int_floor_le [of y] by linarith
  show ?thesis
    using lt by (auto simp: rne_def Let_def fl)
qed

lemma binade_from_range: "- 1022 \<le> binade_from n x \<and> binade_from n x \<le> int n - 1022"
  by (induction n) auto

lemma binade_from_lower: "- 1022 < binade_from n x \<Longrightarrow> 2 powi (binade_from n x) \<le> x"
  by (induction n) (auto split: if_splits)

lemma binade_from_upper:
  "binade_from n x < int n - 1022 \<Longrightarrow> x < 2 powi (binade_from n x + 1)"
proof (induction n)
  case 0
  then show ?case by simp
next
  case (Suc n)
  show ?case
  proof (cases "2 powi (int (Suc n) - 1022) \<le> x")
    case True
    with Suc.prems show ?thesis by simp
  next
    case False
    then have eq: "binade_from (Suc n) x = binade_from n x" by simp
    show ?thesis
    proof (cases "binade_from n x < int n - 1022")
      case True
      with Suc.IH eq show ?thesis by simp
    next
      case False
      with binade_from_range [of n x] have k: "binade_from n x + 1 = int (Suc n) - 1022"
        by simp
      from \<open>\<not> 2 powi (int (Suc n) - 1022) \<le> x\<close>
      have lt: "x < 2 powi (int (Suc n) - 1022)" by (simp only: not_le)
      show ?thesis unfolding eq k by (rule lt)
    qed
  qed
qed

lemma binade_from_mono: "x \<le> y \<Longrightarrow> binade_from n x \<le> binade_from n y"
proof (induction n)
  case 0
  then show ?case by simp
next
  case (Suc n)
  have "binade_from n y \<le> int n - 1022" using binade_from_range by blast
  with Suc show ?case by auto
qed

lemma binade_range: "- 1022 \<le> binade x \<and> binade x \<le> 1023"
  using binade_from_range [of 2045 "\<bar>x\<bar>"] by (simp add: binade_def)

lemma binade_lower: "- 1022 < binade x \<Longrightarrow> 2 powi (binade x) \<le> \<bar>x\<bar>"
  unfolding binade_def by (rule binade_from_lower)

lemma binade_upper: "binade x < 1023 \<Longrightarrow> \<bar>x\<bar> < 2 powi (binade x + 1)"
  using binade_from_upper [of 2045 "\<bar>x\<bar>"] by (simp add: binade_def)

lemma binade_mono: "\<bar>x\<bar> \<le> \<bar>y\<bar> \<Longrightarrow> binade x \<le> binade y"
  unfolding binade_def by (rule binade_from_mono)

lemma binade_minus: "binade (- x) = binade x"
  by (simp add: binade_def)

lemma binade_from_eqI:
  assumes "- 1022 < e" and "e \<le> int n - 1022" and "2 powi e \<le> x" and "x < 2 powi (e + 1)"
  shows "binade_from n x = e"
proof -
  let ?b = "binade_from n x"
  have r: "- 1022 \<le> ?b \<and> ?b \<le> int n - 1022" by (rule binade_from_range)
  have "\<not> ?b < e"
  proof
    assume lt: "?b < e"
    then have "?b < int n - 1022" using assms(2) by simp
    then have "x < 2 powi (?b + 1)" by (rule binade_from_upper)
    also have "\<dots> \<le> 2 powi e"
      using lt by (intro power_int_increasing) simp_all
    finally show False using assms(3) by simp
  qed
  moreover have "\<not> e < ?b"
  proof
    assume lt: "e < ?b"
    then have "- 1022 < ?b" using assms(1) by simp
    then have "2 powi ?b \<le> x" by (rule binade_from_lower)
    moreover have "2 powi (e + 1) \<le> (2::real) powi ?b"
      using lt by (intro power_int_increasing) simp_all
    ultimately show False using assms(4) by simp
  qed
  ultimately show ?thesis by simp
qed

lemma binade_eqI:
  assumes "- 1022 < e" and "e \<le> 1023" and "2 powi e \<le> \<bar>x\<bar>" and "\<bar>x\<bar> < 2 powi (e + 1)"
  shows "binade x = e"
  unfolding binade_def using assms by (intro binade_from_eqI) simp_all

lemma binade_zero: "binade 0 = - 1022"
proof -
  have "\<not> - 1022 < binade 0"
  proof
    assume "- 1022 < binade 0"
    then have "2 powi (binade 0) \<le> \<bar>0::real\<bar>" by (rule binade_lower)
    moreover have "(0::real) < 2 powi (binade 0)" by simp
    ultimately show False by simp
  qed
  then show ?thesis using binade_range [of 0] by simp
qed

lemma two_powi_add: "(2::real) powi (a + b) = 2 powi a * 2 powi b"
  by (rule power_int_add) simp

lemma two_powi_cancel: "(2::real) powi a * 2 powi (- a) = 1"
  using two_powi_add [of a "- a"] by simp

lemma two_powi_pos: "(0::real) < 2 powi a"
  by simp

lemma two_powi_nat: "0 \<le> a \<Longrightarrow> (2::real) powi a = of_int (2 ^ nat a)"
  by (simp add: power_int_def)

lemma two_powi_lessD: "(2::real) powi a < 2 powi b \<Longrightarrow> a < b"
proof (rule ccontr)
  assume lt: "(2::real) powi a < 2 powi b" and "\<not> a < b"
  then have "b \<le> a" by simp
  then have "(2::real) powi b \<le> 2 powi a" by (intro power_int_increasing) simp_all
  with lt show False by simp
qed

lemma rne_zero: "rne 0 = 0"
  using rne_of_int [of 0] by simp

lemma rne_ge: "of_int k \<le> y \<Longrightarrow> k \<le> rne y"
  using rne_mono [of "of_int k" y] by (simp add: rne_of_int)

lemma rne_le: "y \<le> of_int k \<Longrightarrow> rne y \<le> k"
  using rne_mono [of y "of_int k"] by (simp add: rne_of_int)

lemma fl64_minus: "fl64 (- x) = - fl64 x"
  by (simp add: fl64_def binade_minus rne_minus)

lemma fl64_zero: "fl64 0 = 0"
  by (simp add: fl64_def rne_zero)

lemma fl64_nonneg: "0 \<le> x \<Longrightarrow> 0 \<le> fl64 x"
proof -
  assume "0 \<le> x"
  then have "of_int 0 \<le> x * 2 powi (52 - binade x)" by simp
  then have "0 \<le> rne (x * 2 powi (52 - binade x))" by (rule rne_ge)
  then show ?thesis by (simp add: fl64_def)
qed

lemma fl64_exactI:
  assumes "x * 2 powi (52 - binade x) = of_int K"
  shows "fl64 x = x"
proof -
  have "fl64 x = x * 2 powi (52 - binade x) * 2 powi (binade x - 52)"
    by (simp add: fl64_def assms rne_of_int)
  also have "\<dots> = x * (2 powi (52 - binade x) * 2 powi (- (52 - binade x)))"
    by simp
  also have "\<dots> = x" by (simp only: two_powi_cancel mult_1_right)
  finally show ?thesis .
qed

lemma fl64_grid:
  assumes "\<bar>k\<bar> < 2 ^ 53" and "- 1074 \<le> j"
  shows "fl64 (of_int k * 2 powi j) = of_int k * 2 powi j"
proof -
  let ?x = "of_int k * (2::real) powi j"
  let ?b = "binade ?x"
  have nonneg: "0 \<le> j + 52 - ?b"
  proof (cases "- 1022 < ?b")
    case True
    then have "2 powi ?b \<le> \<bar>?x\<bar>" by (rule binade_lower)
    also have "\<bar>?x\<bar> = \<bar>of_int k\<bar> * 2 powi j" by (simp add: abs_mult)
    also have "\<dots> < 2 ^ 53 * 2 powi j"
    proof -
      have "\<bar>real_of_int k\<bar> < 2 ^ 53"
        using assms(1) by (metis of_int_abs of_int_less_iff of_int_numeral of_int_power)
      then show ?thesis by (intro mult_strict_right_mono) simp_all
    qed
    also have "\<dots> = 2 powi (53 + j)" by (simp add: two_powi_add)
    finally have "?b < 53 + j" by (rule two_powi_lessD)
    then show ?thesis by simp
  next
    case False
    with binade_range [of ?x] have "?b = - 1022" by simp
    with assms(2) show ?thesis by simp
  qed
  have "?x * 2 powi (52 - ?b) = of_int k * (2 powi j * 2 powi (52 - ?b))" by simp
  also have "2 powi j * (2::real) powi (52 - ?b) = 2 powi (j + 52 - ?b)"
    by (simp add: two_powi_add [symmetric] algebra_simps)
  also have "\<dots> = of_int (2 ^ nat (j + 52 - ?b))"
    using nonneg by (rule two_powi_nat)
  finally have "?x * 2 powi (52 - ?b) = of_int (k * 2 ^ nat (j + 52 - ?b))" by simp
  then show ?thesis by (rule fl64_exactI)
qed

lemma fl64_of_int: "\<bar>k\<bar> < 2 ^ 53 \<Longrightarrow> fl64 (of_int k) = of_int k"
  using fl64_grid [of k 0] by simp

lemma fl64_quarters: "\<bar>k\<bar> < 2 ^ 53 \<Longrightarrow> fl64 (of_int k / 4) = of_int k / 4"
  using fl64_grid [of k "- 2"] by (simp add: power_int_minus)

lemma two_pow_powi: "(2::real) ^ n * 2 powi (b - int n) = 2 powi b"
proof -
  have "(2::real) ^ n = 2 powi (int n)" by simp
  then have "(2::real) ^ n * 2 powi (b - int n) = 2 powi (int n + (b - int n))"
    by (simp only: two_powi_add)
  then show ?thesis by simp
qed

lemma two_powi_split: "(2::real) powi a * 2 powi (int n - a) = 2 ^ n"
proof -
  have "(2::real) powi a * 2 powi (int n - a) = 2 powi (a + (int n - a))"
    by (simp only: two_powi_add)
  then show ?thesis by simp
qed

lemma fl64_abs: "\<bar>fl64 x\<bar> = fl64 \<bar>x\<bar>"
proof (cases "0 \<le> x")
  case True
  then show ?thesis using fl64_nonneg [of x] by simp
next
  case False
  then have "0 \<le> fl64 (- x)" by (intro fl64_nonneg) simp
  then show ?thesis using False by (simp add: fl64_minus)
qed

lemma rne_scaled_upper:
  assumes "binade x < 1023"
  shows "\<bar>rne (x * 2 powi (52 - binade x))\<bar> \<le> 2 ^ 53"
proof -
  let ?b = "binade x"
  let ?s = "x * 2 powi (52 - ?b)"
  have "\<bar>x\<bar> < 2 powi (?b + 1)" using assms by (rule binade_upper)
  then have "\<bar>x\<bar> * 2 powi (52 - ?b) < 2 powi (?b + 1) * 2 powi (52 - ?b)"
    by (intro mult_strict_right_mono) simp_all
  also have "\<dots> = 2 ^ 53" using two_powi_split [of "?b + 1" 53] by simp
  finally have "\<bar>?s\<bar> < 2 ^ 53" by (simp add: abs_mult)
  then have up: "?s \<le> of_int (2 ^ 53)" and lo: "of_int (- (2 ^ 53)) \<le> ?s" by simp_all
  from rne_le [OF up] rne_ge [OF lo] show ?thesis by simp
qed

lemma rne_scaled_lower:
  assumes "- 1022 < binade x" and "0 \<le> x"
  shows "2 ^ 52 \<le> rne (x * 2 powi (52 - binade x))"
proof -
  let ?b = "binade x"
  have "2 powi ?b \<le> \<bar>x\<bar>" using assms(1) by (rule binade_lower)
  then have "2 powi ?b \<le> x" using assms(2) by simp
  then have "2 powi ?b * 2 powi (52 - ?b) \<le> x * 2 powi (52 - ?b)"
    by (intro mult_right_mono) simp_all
  moreover have "2 powi ?b * (2::real) powi (52 - ?b) = 2 ^ 52"
    using two_powi_split [of ?b 52] by simp
  ultimately have "of_int (2 ^ 52) \<le> x * 2 powi (52 - ?b)" by simp
  then show ?thesis by (rule rne_ge)
qed

lemma fl64_upper:
  assumes "binade x < 1023"
  shows "\<bar>fl64 x\<bar> \<le> 2 powi (binade x + 1)"
proof -
  let ?b = "binade x"
  have "\<bar>fl64 x\<bar> = \<bar>real_of_int (rne (x * 2 powi (52 - ?b)))\<bar> * 2 powi (?b - 52)"
    by (simp add: fl64_def abs_mult)
  also have "\<dots> \<le> 2 ^ 53 * 2 powi (?b - 52)"
  proof (intro mult_right_mono)
    have "real_of_int \<bar>rne (x * 2 powi (52 - ?b))\<bar> \<le> real_of_int (2 ^ 53)"
      using rne_scaled_upper [OF assms] by (simp only: of_int_le_iff)
    then show "\<bar>real_of_int (rne (x * 2 powi (52 - ?b)))\<bar> \<le> 2 ^ 53" by simp
  qed simp
  also have "\<dots> = 2 powi (?b + 1)" using two_pow_powi [of 53 "?b + 1"] by simp
  finally show ?thesis .
qed

lemma fl64_lower:
  assumes "- 1022 < binade x" and "0 \<le> x"
  shows "2 powi (binade x) \<le> fl64 x"
proof -
  let ?b = "binade x"
  have "real_of_int (2 ^ 52) \<le> real_of_int (rne (x * 2 powi (52 - ?b)))"
    using rne_scaled_lower [OF assms] by (simp only: of_int_le_iff)
  then have "2 ^ 52 * 2 powi (?b - 52) \<le> fl64 x"
    unfolding fl64_def by (intro mult_right_mono) simp_all
  moreover have "2 ^ 52 * (2::real) powi (?b - 52) = 2 powi ?b"
    using two_pow_powi [of 52 ?b] by simp
  ultimately show ?thesis by simp
qed

lemma fl64_mono_nonneg:
  assumes "0 \<le> x" and "x \<le> y"
  shows "fl64 x \<le> fl64 y"
proof -
  let ?bx = "binade x" and ?by = "binade y"
  have y0: "0 \<le> y" using assms by simp
  have le: "?bx \<le> ?by" using assms by (intro binade_mono) simp
  show ?thesis
  proof (cases "?bx = ?by")
    case True
    have "x * 2 powi (52 - ?bx) \<le> y * 2 powi (52 - ?bx)"
      using assms(2) by (intro mult_right_mono) simp_all
    then have "rne (x * 2 powi (52 - ?bx)) \<le> rne (y * 2 powi (52 - ?bx))"
      by (rule rne_mono)
    then have "real_of_int (rne (x * 2 powi (52 - ?bx))) \<le> real_of_int (rne (y * 2 powi (52 - ?bx)))"
      by (simp only: of_int_le_iff)
    then have "real_of_int (rne (x * 2 powi (52 - ?bx))) * 2 powi (?bx - 52)
        \<le> real_of_int (rne (y * 2 powi (52 - ?bx))) * 2 powi (?bx - 52)"
      by (intro mult_right_mono) simp_all
    then show ?thesis unfolding fl64_def True [symmetric] .
  next
    case False
    with le have lt: "?bx < ?by" by simp
    have "?by \<le> 1023" using binade_range by blast
    with lt have "?bx < 1023" by simp
    then have "\<bar>fl64 x\<bar> \<le> 2 powi (?bx + 1)" by (rule fl64_upper)
    then have "fl64 x \<le> 2 powi (?bx + 1)" by simp
    also have "\<dots> \<le> 2 powi ?by"
      using lt by (intro power_int_increasing) simp_all
    also have "\<dots> \<le> fl64 y"
    proof (rule fl64_lower)
      have "- 1022 \<le> ?bx" using binade_range by blast
      with lt show "- 1022 < ?by" by simp
    qed (rule y0)
    finally show ?thesis .
  qed
qed

lemma fl64_mono:
  assumes "x \<le> y"
  shows "fl64 x \<le> fl64 y"
proof (cases "0 \<le> x")
  case True
  then show ?thesis using assms by (rule fl64_mono_nonneg)
next
  case xneg: False
  show ?thesis
  proof (cases "0 \<le> y")
    case True
    have "0 \<le> fl64 (- x)" using xneg by (intro fl64_nonneg) simp
    then have "fl64 x \<le> 0" by (simp add: fl64_minus)
    also have "0 \<le> fl64 y" using True by (rule fl64_nonneg)
    finally show ?thesis .
  next
    case False
    then have "0 \<le> - y" and "- y \<le> - x" using assms by simp_all
    then have "fl64 (- y) \<le> fl64 (- x)" by (rule fl64_mono_nonneg)
    then show ?thesis by (simp add: fl64_minus)
  qed
qed

lemma fl64_eval:
  assumes "- 1022 < e" and "e \<le> 1023" and "2 powi e \<le> \<bar>x\<bar>" and "\<bar>x\<bar> < 2 powi (e + 1)"
  shows "fl64 x = of_int (rne (x * 2 powi (52 - e))) * 2 powi (e - 52)"
  using binade_eqI [OF assms] by (simp add: fl64_def)

lemma fl64_idem: "fl64 (fl64 x) = fl64 x"
proof -
  let ?b = "binade x"
  let ?K = "rne (x * 2 powi (52 - ?b))"
  have y: "fl64 x = of_int ?K * 2 powi (?b - 52)" by (simp add: fl64_def)
  have j: "- 1074 \<le> ?b - 52" using binade_range [of x] by simp
  show ?thesis
  proof (cases "\<bar>?K\<bar> < 2 ^ 53")
    case True
    show ?thesis unfolding y using True j by (rule fl64_grid)
  next
    case big: False
    show ?thesis
    proof (cases "?b < 1023")
      case True
      then have "\<bar>?K\<bar> \<le> 2 ^ 53" by (rule rne_scaled_upper)
      with big have K: "\<bar>?K\<bar> = 2 ^ 53" by simp
      then have "?K = 2 ^ 53 \<or> ?K = - (2 ^ 53)" by linarith
      then have even: "?K = 2 * (?K div 2)" and small: "\<bar>?K div 2\<bar> < 2 ^ 53"
        by auto
      have "fl64 x = of_int (2 * (?K div 2)) * 2 powi (?b - 52)"
        using y even by simp
      also have "\<dots> = of_int (?K div 2) * (2 powi 1 * 2 powi (?b - 52))" by simp
      also have "2 powi 1 * (2::real) powi (?b - 52) = 2 powi (?b - 51)"
      proof -
        have "2 powi 1 * (2::real) powi (?b - 52) = 2 powi (1 + (?b - 52))"
          by (simp only: two_powi_add)
        then show ?thesis by (simp add: algebra_simps)
      qed
      finally have y': "fl64 x = of_int (?K div 2) * 2 powi (?b - 51)" .
      have "- 1074 \<le> ?b - 51" using j by simp
      with small show ?thesis unfolding y' by (rule fl64_grid)
    next
      case False
      with binade_range [of x] have b: "?b = 1023" by simp
      let ?c = "binade (fl64 x)"
      have "\<not> ?c < 1023"
      proof
        assume lt: "?c < 1023"
        then have "\<bar>fl64 x\<bar> < 2 powi (?c + 1)" by (rule binade_upper)
        also have "\<dots> \<le> 2 powi 1023" using lt by (intro power_int_increasing) simp_all
        finally have up: "\<bar>fl64 x\<bar> < 2 powi 1023" .
        have ba: "binade \<bar>x\<bar> = 1023" using b by (simp add: binade_def)
        have "2 powi (binade \<bar>x\<bar>) \<le> fl64 \<bar>x\<bar>"
          by (rule fl64_lower) (simp_all add: ba)
        then have "2 powi 1023 \<le> \<bar>fl64 x\<bar>" by (simp add: fl64_abs ba)
        with up show False by simp
      qed
      with binade_range [of "fl64 x"] have c: "?c = 1023" by simp
      have e: "52 - ?c = - (?b - 52)" using c b by simp
      have "fl64 x * 2 powi (52 - ?c) = fl64 x * 2 powi (- (?b - 52))"
        by (simp only: e)
      also from y have "\<dots> = of_int ?K * 2 powi (?b - 52) * 2 powi (- (?b - 52))"
        by (rule arg_cong [where f = "\<lambda>t. t * 2 powi (- (?b - 52))"])
      also have "\<dots> = of_int ?K * (2 powi (?b - 52) * 2 powi (- (?b - 52)))"
        by (simp only: mult.assoc)
      also have "\<dots> = of_int ?K" by (simp only: two_powi_cancel mult_1_right)
      finally show ?thesis by (rule fl64_exactI)
    qed
  qed
qed

lemma fl64_one: "fl64 1 = 1"
  using fl64_of_int [of 1] by simp

lemma fl64_numeral: "(numeral n :: int) < 2 ^ 53 \<Longrightarrow> fl64 (numeral n) = numeral n"
  using fl64_of_int [of "numeral n"] by simp

lemma wf_arith_exact: "wf_arith exactArith"
  by (simp add: wf_arith_def exactArith_def power2_eq_square)

lemma wf_arith_double: "wf_arith doubleArith"
proof -
  have "fl64 (1 / 2 * (1 / 2)) = 1 / 4" using fl64_quarters [of 1] by simp
  then show ?thesis
    using fl64_mono fl64_minus fl64_idem fl64_quarters
    by (simp add: wf_arith_def doubleArith_def fl64_zero)
qed

lemma wf_arith_mono: "wf_arith A \<Longrightarrow> x \<le> y \<Longrightarrow> rd A x \<le> rd A y"
  by (simp add: wf_arith_def)

lemma wf_arith_minus: "wf_arith A \<Longrightarrow> rd A (- x) = - rd A x"
  by (simp add: wf_arith_def)

lemma wf_arith_idem: "wf_arith A \<Longrightarrow> rd A (rd A x) = rd A x"
  by (simp add: wf_arith_def)

lemma wf_arith_quarters:
  "wf_arith A \<Longrightarrow> \<bar>k\<bar> < 2 ^ 53 \<Longrightarrow> rd A (of_int k / 4) = of_int k / 4"
  by (simp add: wf_arith_def)

lemma wf_arith_int:
  assumes "wf_arith A" and "\<bar>k\<bar> < 2 ^ 51"
  shows "rd A (of_int k) = of_int k"
proof -
  have "\<bar>4 * k\<bar> < 2 ^ 53" using assms(2) by simp
  from wf_arith_quarters [OF assms(1) this] show ?thesis by simp
qed

lemma wf_arith_zero: "wf_arith A \<Longrightarrow> rd A 0 = 0"
  using wf_arith_int [of A 0] by simp

lemma wf_arith_one: "wf_arith A \<Longrightarrow> rd A 1 = 1"
  using wf_arith_int [of A 1] by simp

lemma wf_arith_numeral:
  "wf_arith A \<Longrightarrow> (numeral n :: int) < 2 ^ 51 \<Longrightarrow> rd A (numeral n) = numeral n"
  using wf_arith_int [of A "numeral n"] by simp

lemma wf_arith_half: "wf_arith A \<Longrightarrow> rd A (1 / 2) = 1 / 2"
  using wf_arith_quarters [of A 2] by simp

lemma wf_arith_pow2: "wf_arith A \<Longrightarrow> pow2 A 0 = 0 \<and> pow2 A (1 / 2) = 1 / 4"
  by (simp add: wf_arith_def)

section \<open>Gamepad mapping\<close>

subsection \<open>Hat folding\<close>

lemma foldHat_spec:
  "foldHat c parsed st =
     st\<lparr>gp_buttons := gp_buttons st OR
          (if hatSwitch parsed \<ge> 0 then spec_hat_bits c (hatSwitch parsed) else 0)\<rparr>"
  by (simp add: foldHat_def spec_hat_bits_def Let_def or.assoc)

lemma mapAxis_buttons: "gp_buttons (mapAxis A parsed m st) = gp_buttons st"
  by (simp add: mapAxis_def Let_def split: AxisTarget.splits)

lemma mapAxes_buttons: "gp_buttons (mapAxes A parsed ms st) = gp_buttons st"
  by (induction ms arbitrary: st) (simp_all add: mapAxis_buttons)

lemma mapButtons_cong:
  "gp_buttons st = gp_buttons st' \<Longrightarrow>
   gp_buttons (mapButtons parsed ms st) = gp_buttons (mapButtons parsed ms st')"
proof (induction ms arbitrary: st st')
  case Nil
  then show ?case by simp
next
  case (Cons m ms)
  have "gp_buttons (mapButton parsed m st) = gp_buttons (mapButton parsed m st')"
    using Cons.prems by (simp add: mapButton_def)
  from Cons.IH [OF this] show ?case by simp
qed

text \<open>
  C6.  Whatever the arithmetic of the axis pipeline, the button bitmask that
  \<open>mapToGamepad\<close> returns is the bitmask of the button
  mappings combined by OR with the D-pad bits of the three-neighbour table when the
  hat switch is not negative: positions 7, 0, 1 give Up, positions 1, 2, 3 give Right,
  positions 3, 4, 5 give Down and positions 5, 6, 7 give Left.  Position 0 adds Up
  alone, position 1 adds Up and Right, and the neutral position \<open>-1\<close> adds nothing.
\<close>

theorem mapToGamepad_hat_dpad:
  "gp_buttons (mapToGamepad A c slot parsed p) =
     gp_buttons (mapButtons parsed (buttonMappings p) (initialGamepadState slot)) OR
     (if hatSwitch parsed \<ge> 0 then spec_hat_bits c (hatSwitch parsed) else 0)
   \<and> (hatSwitch parsed = 0 \<longrightarrow>
        gp_buttons (mapToGamepad A c slot parsed p) =
          gp_buttons (mapButtons parsed (buttonMappings p) (initialGamepadState slot))
            OR GAMEPAD_DPAD_UP c)
   \<and> (hatSwitch parsed = 1 \<longrightarrow>
        gp_buttons (mapToGamepad A c slot parsed p) =
          gp_buttons (mapButtons parsed (buttonMappings p) (initialGamepadState slot))
            OR (GAMEPAD_DPAD_UP c OR GAMEPAD_DPAD_RIGHT c))
   \<and> (hatSwitch parsed = - 1 \<longrightarrow>
        gp_buttons (mapToGamepad A c slot parsed p) =
          gp_buttons (mapButtons parsed (buttonMappings p) (initialGamepadState slot)))"
proof -
  have base: "gp_buttons (mapButtons parsed (buttonMappings p)
         (mapAxes A parsed (axisMappings p) (initialGamepadState slot))) =
       gp_buttons (mapButtons parsed (buttonMappings p) (initialGamepadState slot))"
    by (rule mapButtons_cong) (rule mapAxes_buttons)
  have gen: "gp_buttons (mapToGamepad A c slot parsed p) =
     gp_buttons (mapButtons parsed (buttonMappings p) (initialGamepadState slot)) OR
     (if hatSwitch parsed \<ge> 0 then spec_hat_bits c (hatSwitch parsed) else 0)"
    by (simp add: mapToGamepad_def foldHat_spec base)
  have zero: "hatSwitch parsed = 0 \<longrightarrow>
        gp_buttons (mapToGamepad A c slot parsed p) =
          gp_buttons (mapButtons parsed (buttonMappings p) (initialGamepadState slot))
            OR GAMEPAD_DPAD_UP c"
    by (simp add: gen spec_hat_bits_def)
  have one: "hatSwitch parsed = 1 \<longrightarrow>
        gp_buttons (mapToGamepad A c slot parsed p) =
          gp_buttons (mapButtons parsed (buttonMappings p) (initialGamepadState slot))
            OR (GAMEPAD_DPAD_UP c OR GAMEPAD_DPAD_RIGHT c)"
    by (simp add: gen spec_hat_bits_def)
  have neutral: "hatSwitch parsed = - 1 \<longrightarrow>
        gp_buttons (mapToGamepad A c slot parsed p) =
          gp_buttons (mapButtons parsed (buttonMappings p) (initialGamepadState slot))"
    by (simp add: gen)
  from gen zero one neutral show ?thesis by (intro conjI)
qed

theorem mapToGamepad_hat_dpad_witness:
  "gp_buttons (mapToGamepad doubleArith xinputDpad 0 \<lparr>axes = [], buttons = [True], hatSwitch = 1\<rparr>
      \<lparr>axisMappings = [], buttonMappings = [\<lparr>btn_sourceIndex = 0, targetButton = 4096\<rparr>]\<rparr>)
     = 4105
   \<and> gp_buttons (mapToGamepad doubleArith xinputDpad 0 \<lparr>axes = [], buttons = [], hatSwitch = 0\<rparr>
      \<lparr>axisMappings = [], buttonMappings = []\<rparr>) = 1
   \<and> gp_buttons (mapToGamepad doubleArith xinputDpad 0 \<lparr>axes = [], buttons = [], hatSwitch = - 1\<rparr>
      \<lparr>axisMappings = [], buttonMappings = []\<rparr>) = 0"
  using mapToGamepad_hat_dpad [of doubleArith xinputDpad 0 "\<lparr>axes = [], buttons = [True], hatSwitch = 1\<rparr>"
      "\<lparr>axisMappings = [], buttonMappings = [\<lparr>btn_sourceIndex = 0, targetButton = 4096\<rparr>]\<rparr>"]
    mapToGamepad_hat_dpad [of doubleArith xinputDpad 0 "\<lparr>axes = [], buttons = [], hatSwitch = 0\<rparr>"
      "\<lparr>axisMappings = [], buttonMappings = []\<rparr>"]
    mapToGamepad_hat_dpad [of doubleArith xinputDpad 0 "\<lparr>axes = [], buttons = [], hatSwitch = - 1\<rparr>"
      "\<lparr>axisMappings = [], buttonMappings = []\<rparr>"]
  by (simp add: xinputDpad_def initialGamepadState_def mapButton_def spec_hat_bits_def)

subsection \<open>Mapping entries that point outside the sample\<close>

lemma mapAxes_filter:
  "mapAxes A parsed (filter (\<lambda>m. \<not> sourceIndex m \<ge> length (axes parsed)) ms) st =
   mapAxes A parsed ms st"
  by (induction ms arbitrary: st) (simp_all add: mapAxis_def)

lemma mapButtons_filter:
  "mapButtons parsed (filter (\<lambda>m. \<not> btn_sourceIndex m \<ge> length (buttons parsed)) ms) st =
   mapButtons parsed ms st"
  by (induction ms arbitrary: st) (simp_all add: mapButton_def)

text \<open>
  C8.  For every sample and profile, and whatever the arithmetic of the axis pipeline,
  \<open>mapToGamepad\<close> returns the same gamepad state on
  the profile as on the profile without the axis mappings whose source index is at
  least the number of axes of the sample and without the button mappings whose source
  index is at least the number of buttons of the sample.  The function is total, so
  such entries cause no failure.
\<close>

theorem mapToGamepad_out_of_range_inert:
  "mapToGamepad A c slot parsed (dropOutOfRange parsed p) = mapToGamepad A c slot parsed p"
  by (simp add: mapToGamepad_def dropOutOfRange_def mapAxes_filter mapButtons_filter)

theorem mapToGamepad_out_of_range_inert_witness:
  "mapToGamepad doubleArith xinputDpad 1 \<lparr>axes = [1], buttons = [True], hatSwitch = - 1\<rparr>
     \<lparr>axisMappings =
        [\<lparr>sourceIndex = 0, target = LeftTrigger, inverted = False, deadzone = 0,
          sensitivity = 1, curve = Linear\<rparr>,
         \<lparr>sourceIndex = 1, target = LeftTrigger, inverted = True, deadzone = 0,
          sensitivity = 1, curve = Linear\<rparr>],
      buttonMappings =
        [\<lparr>btn_sourceIndex = 0, targetButton = 4096\<rparr>,
         \<lparr>btn_sourceIndex = 3, targetButton = 8192\<rparr>]\<rparr>
   = mapToGamepad doubleArith xinputDpad 1 \<lparr>axes = [1], buttons = [True], hatSwitch = - 1\<rparr>
     \<lparr>axisMappings =
        [\<lparr>sourceIndex = 0, target = LeftTrigger, inverted = False, deadzone = 0,
          sensitivity = 1, curve = Linear\<rparr>],
      buttonMappings = [\<lparr>btn_sourceIndex = 0, targetButton = 4096\<rparr>]\<rparr>"
  using mapToGamepad_out_of_range_inert [of doubleArith xinputDpad 1
      "\<lparr>axes = [1], buttons = [True], hatSwitch = - 1\<rparr>"
      "\<lparr>axisMappings =
        [\<lparr>sourceIndex = 0, target = LeftTrigger, inverted = False, deadzone = 0,
          sensitivity = 1, curve = Linear\<rparr>,
         \<lparr>sourceIndex = 1, target = LeftTrigger, inverted = True, deadzone = 0,
          sensitivity = 1, curve = Linear\<rparr>],
      buttonMappings =
        [\<lparr>btn_sourceIndex = 0, targetButton = 4096\<rparr>,
         \<lparr>btn_sourceIndex = 3, targetButton = 8192\<rparr>]\<rparr>"]
  by (simp add: dropOutOfRange_def)

subsection \<open>Rounding and clamping\<close>

text \<open>
  In an arithmetic whose rounding is monotone and exact on the integers at hand,
  rounding and clamping the scaled value is the same as clamping the value first, for
  triggers always and for sticks from \<open>-1\<close> upwards.
\<close>

lemma round_trigger_clamp:
  assumes "wf_arith A"
  shows "max 0 (min 255 (Math_round (rd A (v * 255)))) = spec_trigger_scaled A v"
proof -
  note z = wf_arith_zero [OF assms]
  have top: "rd A 255 = 255" using wf_arith_int [OF assms, of 255] by simp
  consider "v < 0" | "0 \<le> v \<and> v \<le> 1" | "1 < v" by linarith
  then show ?thesis
  proof cases
    case 1
    then have "v * 255 \<le> 0" by simp
    from wf_arith_mono [OF assms this] have "rd A (v * 255) \<le> 0" by (simp add: z)
    then have "rd A (v * 255) + 1 / 2 < 1" by simp
    then have "\<lfloor>rd A (v * 255) + 1 / 2\<rfloor> \<le> 0" by (simp add: floor_le_iff)
    then show ?thesis using 1
      by (simp add: spec_trigger_scaled_def clamp_def clampInt_def Math_round_def z)
  next
    case 2
    then show ?thesis
      by (simp add: spec_trigger_scaled_def clamp_def clampInt_def)
  next
    case 3
    then have "255 \<le> v * 255" by simp
    from wf_arith_mono [OF assms this] have "255 \<le> rd A (v * 255)" by (simp add: top)
    then have "255 \<le> rd A (v * 255) + 1 / 2" by simp
    then have "255 \<le> \<lfloor>rd A (v * 255) + 1 / 2\<rfloor>" by (simp add: le_floor_iff)
    then show ?thesis using 3
      by (simp add: spec_trigger_scaled_def clamp_def clampInt_def Math_round_def top)
  qed
qed

lemma triggerClamped_spec:
  assumes "wf_arith A"
  shows "triggerClamped A m raw = spec_trigger_scaled A (spec_trigger_adjusted A m raw)"
proof -
  have "applyCurve A
          (applyDeadzone A (if inverted m then rd A (1 - raw) else raw) (deadzone m))
          (sensitivity m) (curve m) = spec_trigger_adjusted A m raw"
    by (cases "curve m")
      (simp_all add: applyCurve_def applyDeadzone_def spec_trigger_adjusted_def
        spec_unsigned_deadzone_def)
  then show ?thesis
    using round_trigger_clamp [OF assms, of "spec_trigger_adjusted A m raw"]
    by (simp add: triggerClamped_def Let_def)
qed

lemma spec_trigger_scaled_range:
  "0 \<le> spec_trigger_scaled A v \<and> spec_trigger_scaled A v \<le> 255"
  by (simp add: spec_trigger_scaled_def clampInt_def)

lemma rd_signed:
  assumes "wf_arith A"
  shows "rd A (1 * rd A z) = rd A z" and "rd A (- 1 * rd A z) = - rd A z"
  using wf_arith_idem [OF assms, of z] wf_arith_minus [OF assms, of "rd A z"] by simp_all

lemma applyStickDeadzone_spec:
  assumes "wf_arith A" and "0 \<le> dz"
  shows "applyStickDeadzone A v dz = spec_signed_deadzone A v dz"
proof -
  consider "v = 0" | "0 < v" | "v < 0" by linarith
  then show ?thesis
  proof cases
    case 1
    show ?thesis
    proof (cases "0 < dz")
      case True
      with 1 show ?thesis
        by (simp add: applyStickDeadzone_def spec_signed_deadzone_def)
    next
      case False
      with assms(2) have "dz = 0" by simp
      with 1 show ?thesis
        by (simp add: applyStickDeadzone_def spec_signed_deadzone_def
            wf_arith_zero [OF assms(1)])
    qed
  next
    case 2
    then show ?thesis
      using rd_signed(1) [OF assms(1)]
      by (simp add: applyStickDeadzone_def spec_signed_deadzone_def Let_def)
  next
    case 3
    then show ?thesis
      using rd_signed(2) [OF assms(1)]
      by (simp add: applyStickDeadzone_def spec_signed_deadzone_def Let_def)
  qed
qed

lemma applyStickCurve_spec:
  assumes "wf_arith A"
  shows "applyStickCurve A v sens c =
     (case c of
        Linear \<Rightarrow> rd A (v * sens)
      | Expo \<Rightarrow> rd A (rd A (sgn v * pow2 A \<bar>v\<bar>) * sens))"
proof (cases "v = 0")
  case True
  then show ?thesis
    using wf_arith_pow2 [OF assms] wf_arith_zero [OF assms]
    by (cases c) (simp_all add: applyStickCurve_def)
next
  case False
  then show ?thesis
    by (cases c) (simp_all add: applyStickCurve_def Let_def sgn_real_def)
qed

lemma stick_adjusted_spec:
  assumes "wf_arith A" and "0 \<le> deadzone m"
  shows "applyStickCurve A
           (applyStickDeadzone A
              (if inverted m then - rd A (rd A (raw * 2) - 1) else rd A (rd A (raw * 2) - 1))
              (deadzone m))
           (sensitivity m) (curve m) = spec_stick_adjusted A m raw"
proof -
  have dz: "applyStickDeadzone A
      (if inverted m then - rd A (rd A (raw * 2) - 1) else rd A (rd A (raw * 2) - 1))
      (deadzone m)
      = spec_signed_deadzone A (spec_bipolar A m raw) (deadzone m)"
    using applyStickDeadzone_spec [OF assms] by (simp add: spec_bipolar_def)
  show ?thesis
    unfolding dz applyStickCurve_spec [OF assms(1)]
    by (simp add: spec_stick_adjusted_def Let_def)
qed

lemma stickClamped_spec:
  assumes "wf_arith A" and "0 \<le> deadzone m"
  shows "stickClamped A m raw =
     clampInt (Math_round (rd A (spec_stick_adjusted A m raw * 32767))) (- 32768) 32767"
  using stick_adjusted_spec [OF assms, of raw]
  by (simp add: stickClamped_def clampInt_def Let_def)

lemma clampInt_range: "lo \<le> hi \<Longrightarrow> lo \<le> clampInt v lo hi \<and> clampInt v lo hi \<le> hi"
  by (simp add: clampInt_def)

lemma rd_32767:
  assumes "wf_arith A"
  shows "rd A 32767 = 32767" and "rd A (- 32767) = - 32767" and "rd A (- 32768) = - 32768"
  using wf_arith_int [OF assms, of 32767] wf_arith_int [OF assms, of "- 32767"]
    wf_arith_int [OF assms, of "- 32768"] by simp_all

lemma stick_scaled_agree:
  assumes "wf_arith A" and "- 1 \<le> v"
  shows "clampInt (Math_round (rd A (v * 32767))) (- 32768) 32767 = spec_stick_scaled A v"
proof (cases "v \<le> 1")
  case True
  then show ?thesis using assms(2) by (simp add: spec_stick_scaled_def clamp_def)
next
  case False
  then have "32767 \<le> v * 32767" by simp
  from wf_arith_mono [OF assms(1) this] have "32767 \<le> rd A (v * 32767)"
    by (simp add: rd_32767 [OF assms(1)])
  then have "32767 \<le> rd A (v * 32767) + 1 / 2" by simp
  then have "32767 \<le> \<lfloor>rd A (v * 32767) + 1 / 2\<rfloor>" by (simp add: le_floor_iff)
  then show ?thesis using False
    by (simp add: spec_stick_scaled_def clamp_def clampInt_def Math_round_def
        rd_32767 [OF assms(1)])
qed

lemma spec_stick_scaled_range:
  assumes "wf_arith A"
  shows "- 32767 \<le> spec_stick_scaled A v \<and> spec_stick_scaled A v \<le> 32767"
proof -
  let ?c = "clamp v (- 1) 1 * 32767"
  have "- 32767 \<le> ?c" and "?c \<le> 32767" by (simp_all add: clamp_def)
  then have "rd A (- 32767) \<le> rd A ?c" and "rd A ?c \<le> rd A 32767"
    using wf_arith_mono [OF assms] by blast+
  then have lo: "- 32767 \<le> rd A ?c" and hi: "rd A ?c \<le> 32767"
    by (simp_all add: rd_32767 [OF assms])
  have "- 32767 \<le> \<lfloor>rd A ?c + 1 / 2\<rfloor>" using lo by (simp add: le_floor_iff)
  moreover have "\<lfloor>rd A ?c + 1 / 2\<rfloor> \<le> 32767" using hi by (simp add: floor_le_iff)
  ultimately show ?thesis by (simp add: spec_stick_scaled_def clampInt_def Math_round_def)
qed

subsection \<open>The field that a mapping decides\<close>

lemma mapAxis_targetField:
  "targetField t (mapAxis A parsed m st) =
     (if target m = t \<and> sourceIndex m < length (axes parsed) then written A t m parsed
      else targetField t st)"
  by (cases t; cases "target m") (simp_all add: mapAxis_def written_def isTrigger_def Let_def)

lemma effective_Nil: "effective parsed [] t = None"
  by (simp add: effective_def)

lemma effective_Cons:
  "effective parsed (m # ms) t =
     (case effective parsed ms t of
        Some m' \<Rightarrow> Some m'
      | None \<Rightarrow> if target m = t \<and> sourceIndex m < length (axes parsed) then Some m else None)"
  by (simp add: effective_def split: list.splits)

lemma mapAxes_targetField:
  "targetField t (mapAxes A parsed ms st) =
     (case effective parsed ms t of
        None \<Rightarrow> targetField t st
      | Some m \<Rightarrow> written A t m parsed)"
proof (induction ms arbitrary: st)
  case Nil
  then show ?case by (simp add: effective_Nil)
next
  case (Cons m ms)
  show ?case
    by (simp add: Cons.IH effective_Cons mapAxis_targetField split: option.splits)
qed

lemma mapButton_targetField: "targetField t (mapButton parsed m st) = targetField t st"
  by (cases t) (simp_all add: mapButton_def)

lemma mapButtons_targetField: "targetField t (mapButtons parsed ms st) = targetField t st"
  by (induction ms arbitrary: st) (simp_all add: mapButton_targetField)

lemma foldHat_targetField: "targetField t (foldHat c parsed st) = targetField t st"
  by (cases t) (simp_all add: foldHat_def Let_def)

lemma mapToGamepad_targetField:
  "targetField t (mapToGamepad A c slot parsed p) =
     (case effective parsed (axisMappings p) t of
        None \<Rightarrow> 0
      | Some m \<Rightarrow> written A t m parsed)"
proof -
  have "targetField t (initialGamepadState slot) = 0"
    by (cases t) (simp_all add: initialGamepadState_def)
  then show ?thesis
    by (simp add: mapToGamepad_def foldHat_targetField mapButtons_targetField
        mapAxes_targetField split: option.splits)
qed

lemma effective_target:
  "effective parsed ms t = Some m \<Longrightarrow> target m = t \<and> sourceIndex m < length (axes parsed)"
proof (induction ms)
  case Nil
  then show ?case by (simp add: effective_Nil)
next
  case (Cons a ms)
  then show ?case
    by (cases "effective parsed ms t") (auto simp: effective_Cons split: if_splits)
qed

subsection \<open>Values of the double-precision arithmetic used in the examples\<close>

lemma fl64_half: "fl64 (1 / 2) = 1 / 2"
  using fl64_quarters [of 2] by simp

lemma fl64_quarter: "fl64 (1 / 4) = 1 / 4"
  using fl64_quarters [of 1] by simp

lemma fl64_three_quarters: "fl64 (3 / 4) = 3 / 4"
  using fl64_quarters [of 3] by simp

lemma fl64_three_halves: "fl64 (3 / 2) = 3 / 2"
  using fl64_quarters [of 6] by simp

lemma fl64_255_quarters: "fl64 (255 / 4) = 255 / 4"
  using fl64_quarters [of 255] by simp

lemma fl64_three_eighths: "fl64 (3 / 8) = 3 / 8"
  using fl64_grid [of 3 "- 3"] by (simp add: power_int_minus)

lemma fl64_seven_eighths: "fl64 (7 / 8) = 7 / 8"
  using fl64_grid [of 7 "- 3"] by (simp add: power_int_minus)

lemma fl64_third: "fl64 (1 / 3) = 6004799503160661 / 18014398509481984"
  using fl64_eval [of "- 2" "1 / 3"] by (simp add: rne_def power_int_minus)

lemma fl64_trigger_curve:
  "fl64 (30023997515803305 / 36028797018963968) = 3752999689475413 / 4503599627370496"
  using fl64_eval [of "- 1" "30023997515803305 / 36028797018963968"]
  by (simp add: rne_def power_int_minus)

lemma fl64_trigger_scale:
  "fl64 (957014920816230315 / 4503599627370496) = 7476679068876799 / 35184372088832"
  using fl64_eval [of 7 "957014920816230315 / 4503599627370496"]
  by (simp add: rne_def power_int_minus)

lemma fl64_slider: "fl64 (11 / 255) = 3108366801636107 / 72057594037927936"
  using fl64_eval [of "- 5" "11 / 255"] by (simp add: rne_def power_int_minus)

lemma fl64_slider_idem:
  "fl64 (3108366801636107 / 72057594037927936) = 3108366801636107 / 72057594037927936"
  using fl64_idem [of "11 / 255"] by (simp only: fl64_slider)

lemma fl64_slider_curve:
  "fl64 (9325100404908321 / 144115188075855872) = 291409387653385 / 4503599627370496"
  using fl64_eval [of "- 4" "9325100404908321 / 144115188075855872"]
  by (simp add: rne_def power_int_minus)

lemma fl64_slider_scale:
  "fl64 (74309393851613175 / 4503599627370496) = 4644337115725823 / 281474976710656"
  using fl64_eval [of 4 "74309393851613175 / 4503599627370496"]
  by (simp add: rne_def power_int_minus)

lemma fl64_three_sevenths: "fl64 (3 / 7) = 7720456504063707 / 18014398509481984"
  using fl64_eval [of "- 2" "3 / 7"] by (simp add: rne_def power_int_minus)

lemma fl64_stick_curve:
  "fl64 (23161369512191121 / 36028797018963968) = 1447585594511945 / 2251799813685248"
  using fl64_eval [of "- 1" "23161369512191121 / 36028797018963968"]
  by (simp add: rne_def power_int_minus)

lemma fl64_stick_scale:
  "fl64 (47433037175372901815 / 2251799813685248) = 5790165670821887 / 274877906944"
  using fl64_eval [of 14 "47433037175372901815 / 2251799813685248"]
  by (simp add: rne_def power_int_minus)

lemma trigger_example_linear:
  "spec_trigger_scaled doubleArith
     (spec_trigger_adjusted doubleArith (linearTrigger (1 / 4) (5 / 2)) (1 / 2)) = 212"
  by (simp add: spec_trigger_scaled_def spec_trigger_adjusted_def spec_unsigned_deadzone_def
      linearTrigger_def doubleArith_def fl64_quarter fl64_three_quarters fl64_third
      fl64_trigger_curve clamp_def fl64_trigger_scale clampInt_def Math_round_def)

lemma trigger_example_slider:
  "spec_trigger_scaled doubleArith
     (spec_trigger_adjusted doubleArith (linearTrigger 0 (3 / 2)) (rd doubleArith (11 / 255))) = 16"
  by (simp add: spec_trigger_scaled_def spec_trigger_adjusted_def spec_unsigned_deadzone_def
      linearTrigger_def doubleArith_def fl64_one fl64_slider fl64_slider_idem
      fl64_slider_curve clamp_def fl64_slider_scale clampInt_def Math_round_def)

lemma trigger_example_expo:
  "spec_trigger_scaled doubleArith
     (spec_trigger_adjusted doubleArith exampleTrigger (1 / 2)) = 64"
  by (simp add: spec_trigger_scaled_def spec_trigger_adjusted_def spec_unsigned_deadzone_def
      exampleTrigger_def doubleArith_def fl64_one fl64_half fl64_quarter fl64_255_quarters
      clamp_def clampInt_def Math_round_def)

lemma stick_example_linear:
  "clampInt (Math_round (rd doubleArith
      (spec_stick_adjusted doubleArith (exampleStick (1 / 8) (3 / 2)) (3 / 4) * 32767)))
     (- 32768) 32767 = 21064"
  by (simp add: spec_stick_adjusted_def spec_signed_deadzone_def spec_bipolar_def
      exampleStick_def doubleArith_def fl64_three_halves fl64_half fl64_three_eighths
      fl64_seven_eighths fl64_three_sevenths fl64_stick_curve fl64_stick_scale
      clampInt_def Math_round_def)

lemma stick_example_below:
  "rd doubleArith (spec_stick_adjusted doubleArith (exampleStick 0 3) 0 * 32767) = - 98301"
  by (simp add: spec_stick_adjusted_def spec_signed_deadzone_def spec_bipolar_def
      exampleStick_def doubleArith_def fl64_zero fl64_one fl64_minus fl64_numeral)

subsection \<open>Trigger targets\<close>

text \<open>
  C5.  In every arithmetic of the kind above, binary64 rounding among them: for every
  axis mapping \<open>m\<close> that names a trigger, has its source index inside the sample and a
  deadzone between 0 and one half, the loop body of \<open>mapToGamepad\<close> writes into the
  named trigger field, and changes nothing else, the reference value: the raw axis,
  inverted when asked, through the unsigned deadzone and the curve, clamped to the unit
  interval, scaled by 255, rounded and clamped to 0..255, each operation rounded by the
  arithmetic.  The value lies in 0..255, and it is the trigger field of the state that
  \<open>mapToGamepad\<close> returns when \<open>m\<close> decides the target, that is, when no later in-range
  mapping names the same trigger.  With the expo curve, sensitivity 1 and a
  deadzone-adjusted value of one half the value written is 64.
\<close>

theorem mapToGamepad_trigger:
  assumes "wf_arith A" and "isTrigger (target m)" and "sourceIndex m < length (axes parsed)"
    and "0 \<le> deadzone m" and "deadzone m \<le> 1 / 2"
  shows "mapAxis A parsed m st =
        (if target m = LeftTrigger
         then st\<lparr>leftTrigger :=
                  spec_trigger_scaled A (spec_trigger_adjusted A m (axes parsed ! sourceIndex m))\<rparr>
         else st\<lparr>rightTrigger :=
                  spec_trigger_scaled A (spec_trigger_adjusted A m (axes parsed ! sourceIndex m))\<rparr>)
    \<and> 0 \<le> targetField (target m) (mapAxis A parsed m st)
    \<and> targetField (target m) (mapAxis A parsed m st) \<le> 255
    \<and> (effective parsed (axisMappings p) (target m) = Some m \<longrightarrow>
         targetField (target m) (mapToGamepad A c slot parsed p) =
           spec_trigger_scaled A (spec_trigger_adjusted A m (axes parsed ! sourceIndex m)))
    \<and> (curve m = Expo \<and> sensitivity m = 1 \<and>
         spec_unsigned_deadzone A
           (if inverted m then rd A (1 - axes parsed ! sourceIndex m)
            else axes parsed ! sourceIndex m)
           (deadzone m) = 1 / 2 \<longrightarrow>
       targetField (target m) (mapAxis A parsed m st) = 64)"
proof -
  let ?raw = "axes parsed ! sourceIndex m"
  let ?V = "spec_trigger_scaled A (spec_trigger_adjusted A m ?raw)"
  let ?w = "targetField (target m) (mapAxis A parsed m st)"
  note wf = assms(1)
  have body: "mapAxis A parsed m st =
        (if target m = LeftTrigger then st\<lparr>leftTrigger := ?V\<rparr>
         else st\<lparr>rightTrigger := ?V\<rparr>)"
    using assms(2,3) by (simp add: mapAxis_def isTrigger_def triggerClamped_spec [OF wf] Let_def)
  have w: "?w = ?V"
    using assms(2,3) by (simp add: mapAxis_targetField written_def triggerClamped_spec [OF wf])
  have lo: "0 \<le> ?w" and hi: "?w \<le> 255"
    unfolding w using spec_trigger_scaled_range [of A "spec_trigger_adjusted A m ?raw"] by blast+
  have final: "effective parsed (axisMappings p) (target m) = Some m \<longrightarrow>
         targetField (target m) (mapToGamepad A c slot parsed p) = ?V"
    using assms(2) by (simp add: mapToGamepad_targetField written_def triggerClamped_spec [OF wf])
  have expo: "curve m = Expo \<and> sensitivity m = 1 \<and>
         spec_unsigned_deadzone A (if inverted m then rd A (1 - ?raw) else ?raw) (deadzone m)
           = 1 / 2
       \<longrightarrow> ?w = 64"
  proof
    assume a: "curve m = Expo \<and> sensitivity m = 1 \<and>
         spec_unsigned_deadzone A (if inverted m then rd A (1 - ?raw) else ?raw) (deadzone m)
           = 1 / 2"
    let ?d = "spec_unsigned_deadzone A (if inverted m then rd A (1 - ?raw) else ?raw) (deadzone m)"
    from a have cv: "curve m = Expo" and sens: "sensitivity m = 1" and d: "?d = 1 / 2"
      by blast+
    have quarter: "rd A (1 / 4) = 1 / 4" using wf_arith_quarters [OF wf, of 1] by simp
    have "spec_trigger_adjusted A m ?raw = rd A (pow2 A ?d * sensitivity m)"
      using cv by (simp add: spec_trigger_adjusted_def Let_def)
    also have "\<dots> = 1 / 4"
    proof -
      have p: "pow2 A (1 / 2) = 1 / 4" using wf_arith_pow2 [OF wf] by blast
      show ?thesis unfolding d sens p mult_1_right by (rule quarter)
    qed
    finally have q: "spec_trigger_adjusted A m ?raw = 1 / 4" .
    have r: "rd A (255 / 4) = 255 / 4" using wf_arith_quarters [OF wf, of 255] by simp
    have "spec_trigger_scaled A (1 / 4) = clampInt (Math_round (rd A (255 / 4))) 0 255"
      by (simp add: spec_trigger_scaled_def clamp_def)
    also have "\<dots> = 64"
      unfolding r by (simp add: clampInt_def Math_round_def)
    finally have "spec_trigger_scaled A (1 / 4) = 64" .
    then show "?w = 64"
      unfolding w q .
  qed
  from body lo hi final expo show ?thesis by (intro conjI)
qed

text \<open>
  In binary64 arithmetic: a raw value of one half with deadzone one quarter,
  sensitivity \<open>5/2\<close> and the linear curve gives 212, the product before
  \<^verbatim>\<open>Math.round\<close> being just below \<open>212.5\<close>; the sample that the decoder leaves for the
  byte 11 over the range 0..255, with sensitivity \<open>3/2\<close>, gives 16; and one half with the
  expo curve and sensitivity 1 gives 64.
\<close>

theorem mapToGamepad_trigger_witness:
  "wf_arith doubleArith
   \<and> isTrigger (target (linearTrigger (1 / 4) (5 / 2)))
   \<and> sourceIndex (linearTrigger (1 / 4) (5 / 2))
       < length (axes \<lparr>axes = [1 / 2], buttons = [], hatSwitch = - 1\<rparr>)
   \<and> 0 \<le> deadzone (linearTrigger (1 / 4) (5 / 2))
   \<and> deadzone (linearTrigger (1 / 4) (5 / 2)) \<le> 1 / 2
   \<and> leftTrigger (mapToGamepad doubleArith xinputDpad 0
          \<lparr>axes = [1 / 2], buttons = [], hatSwitch = - 1\<rparr>
          \<lparr>axisMappings = [linearTrigger (1 / 4) (5 / 2)], buttonMappings = []\<rparr>) = 212
   \<and> leftTrigger (mapToGamepad doubleArith xinputDpad 0
          \<lparr>axes = [rd doubleArith (11 / 255)], buttons = [], hatSwitch = - 1\<rparr>
          \<lparr>axisMappings = [linearTrigger 0 (3 / 2)], buttonMappings = []\<rparr>) = 16
   \<and> leftTrigger (mapToGamepad doubleArith xinputDpad 0
          \<lparr>axes = [1 / 2], buttons = [], hatSwitch = - 1\<rparr>
          \<lparr>axisMappings = [exampleTrigger], buttonMappings = []\<rparr>) = 64"
proof -
  let ?A = doubleArith
  have out: "leftTrigger (mapToGamepad ?A xinputDpad 0
          \<lparr>axes = [raw], buttons = [], hatSwitch = - 1\<rparr>
          \<lparr>axisMappings = [m], buttonMappings = []\<rparr>) = k"
    if tg: "target m = LeftTrigger" and src: "sourceIndex m = 0"
      and d0: "0 \<le> deadzone m" and d1: "deadzone m \<le> 1 / 2"
      and v: "spec_trigger_scaled ?A (spec_trigger_adjusted ?A m raw) = k"
    for m raw k
  proof -
    let ?parsed = "\<lparr>axes = [raw], buttons = [], hatSwitch = - 1\<rparr>"
    let ?p = "\<lparr>axisMappings = [m], buttonMappings = []\<rparr>"
    have t: "isTrigger (target m)" by (simp add: isTrigger_def tg)
    have i: "sourceIndex m < length (axes ?parsed)" by (simp add: src)
    have e: "effective ?parsed (axisMappings ?p) (target m) = Some m"
      by (simp add: effective_def src)
    have r: "axes ?parsed ! sourceIndex m = raw" by (simp add: src)
    from mapToGamepad_trigger [OF wf_arith_double t i d0 d1, of "initialGamepadState 0" ?p xinputDpad 0]
    have "effective ?parsed (axisMappings ?p) (target m) = Some m \<longrightarrow>
         targetField (target m) (mapToGamepad ?A xinputDpad 0 ?parsed ?p) =
           spec_trigger_scaled ?A (spec_trigger_adjusted ?A m (axes ?parsed ! sourceIndex m))"
      by (elim conjE)
    with e have "targetField (target m) (mapToGamepad ?A xinputDpad 0 ?parsed ?p) = k"
      unfolding r v by blast
    then show ?thesis unfolding tg by simp
  qed
  have a: "leftTrigger (mapToGamepad ?A xinputDpad 0
          \<lparr>axes = [1 / 2], buttons = [], hatSwitch = - 1\<rparr>
          \<lparr>axisMappings = [linearTrigger (1 / 4) (5 / 2)], buttonMappings = []\<rparr>) = 212"
    by (rule out [OF _ _ _ _ trigger_example_linear]) (simp_all add: linearTrigger_def)
  have b: "leftTrigger (mapToGamepad ?A xinputDpad 0
          \<lparr>axes = [rd ?A (11 / 255)], buttons = [], hatSwitch = - 1\<rparr>
          \<lparr>axisMappings = [linearTrigger 0 (3 / 2)], buttonMappings = []\<rparr>) = 16"
    by (rule out [OF _ _ _ _ trigger_example_slider]) (simp_all add: linearTrigger_def)
  have c: "leftTrigger (mapToGamepad ?A xinputDpad 0
          \<lparr>axes = [1 / 2], buttons = [], hatSwitch = - 1\<rparr>
          \<lparr>axisMappings = [exampleTrigger], buttonMappings = []\<rparr>) = 64"
    by (rule out [OF _ _ _ _ trigger_example_expo]) (simp_all add: exampleTrigger_def)
  have t: "isTrigger (target (linearTrigger (1 / 4) (5 / 2)))"
    by (simp add: isTrigger_def linearTrigger_def)
  have i: "sourceIndex (linearTrigger (1 / 4) (5 / 2))
       < length (axes \<lparr>axes = [1 / 2], buttons = [], hatSwitch = - 1\<rparr>)"
    by (simp add: linearTrigger_def)
  have d0: "0 \<le> deadzone (linearTrigger (1 / 4) (5 / 2))"
    and d1: "deadzone (linearTrigger (1 / 4) (5 / 2)) \<le> 1 / 2"
    by (simp_all add: linearTrigger_def)
  from wf_arith_double t i d0 d1 a b c show ?thesis by (intro conjI)
qed

subsection \<open>Stick targets\<close>

text \<open>
  C4.  In every arithmetic of the kind above: for a deadzone between 0 and one half,
  \<open>applyStickDeadzone\<close> maps a bipolar value \<open>v\<close> to 0 when its magnitude is below the
  deadzone and to \<open>sgn v * ((\<bar>v\<bar> - dz) / (1 - dz))\<close> otherwise, the difference, the
  divisor and the quotient each rounded by the arithmetic, and the stick branch of the
  mapping applies it to the bipolar value before the curve.  When a stick target is
  decided by a mapping with deadzone one tenth, a bipolar input of exactly one tenth
  gives the stick value 0, and a bipolar input of 1 with sensitivity 1 and the linear
  curve gives the stick value 32767.
\<close>

theorem stick_signed_deadzone:
  assumes "wf_arith A"
  shows "(0 \<le> dz \<and> dz \<le> 1 / 2 \<longrightarrow>
      applyStickDeadzone A v dz =
        (if \<bar>v\<bar> < dz then 0 else sgn v * rd A (rd A (\<bar>v\<bar> - dz) / rd A (1 - dz))))
   \<and> (\<not> isTrigger t \<and> effective parsed (axisMappings p) t = Some m \<and>
        deadzone m = 1 / 10 \<and> spec_bipolar A m (axes parsed ! sourceIndex m) = 1 / 10 \<longrightarrow>
      targetField t (mapToGamepad A c slot parsed p) = 0)
   \<and> (\<not> isTrigger t \<and> effective parsed (axisMappings p) t = Some m \<and>
        deadzone m = 1 / 10 \<and> spec_bipolar A m (axes parsed ! sourceIndex m) = 1 \<and>
        sensitivity m = 1 \<and> curve m = Linear \<longrightarrow>
      targetField t (mapToGamepad A c slot parsed p) = 32767)
   \<and> (0 \<le> deadzone m' \<and> deadzone m' \<le> 1 / 2 \<longrightarrow>
      stickClamped A m' raw =
        max (- 32768) (min 32767 (Math_round (rd A
          (applyStickCurve A
             (if \<bar>spec_bipolar A m' raw\<bar> < deadzone m' then 0
              else sgn (spec_bipolar A m' raw)
                   * rd A (rd A (\<bar>spec_bipolar A m' raw\<bar> - deadzone m') / rd A (1 - deadzone m')))
             (sensitivity m') (curve m') * 32767)))))"
proof -
  let ?raw = "axes parsed ! sourceIndex m"
  let ?out = "targetField t (mapToGamepad A c slot parsed p)"
  note wf = assms
  note z = wf_arith_zero [OF wf] and one = wf_arith_one [OF wf]
  have pipeline: "0 \<le> deadzone m' \<and> deadzone m' \<le> 1 / 2 \<longrightarrow>
      stickClamped A m' raw =
        max (- 32768) (min 32767 (Math_round (rd A
          (applyStickCurve A
             (if \<bar>spec_bipolar A m' raw\<bar> < deadzone m' then 0
              else sgn (spec_bipolar A m' raw)
                   * rd A (rd A (\<bar>spec_bipolar A m' raw\<bar> - deadzone m') / rd A (1 - deadzone m')))
             (sensitivity m') (curve m') * 32767))))"
  proof
    assume "0 \<le> deadzone m' \<and> deadzone m' \<le> 1 / 2"
    then have "0 \<le> deadzone m'" by blast
    from applyStickDeadzone_spec [OF wf this, of "spec_bipolar A m' raw"]
    have "applyStickDeadzone A
          (if inverted m' then - rd A (rd A (raw * 2) - 1) else rd A (rd A (raw * 2) - 1))
          (deadzone m')
        = (if \<bar>spec_bipolar A m' raw\<bar> < deadzone m' then 0
           else sgn (spec_bipolar A m' raw)
                * rd A (rd A (\<bar>spec_bipolar A m' raw\<bar> - deadzone m') / rd A (1 - deadzone m')))"
      by (simp add: spec_signed_deadzone_def spec_bipolar_def)
    then show "stickClamped A m' raw =
        max (- 32768) (min 32767 (Math_round (rd A
          (applyStickCurve A
             (if \<bar>spec_bipolar A m' raw\<bar> < deadzone m' then 0
              else sgn (spec_bipolar A m' raw)
                   * rd A (rd A (\<bar>spec_bipolar A m' raw\<bar> - deadzone m') / rd A (1 - deadzone m')))
             (sensitivity m') (curve m') * 32767))))"
      by (simp add: stickClamped_def Let_def)
  qed
  have gen: "0 \<le> dz \<and> dz \<le> 1 / 2 \<longrightarrow>
      applyStickDeadzone A v dz =
        (if \<bar>v\<bar> < dz then 0 else sgn v * rd A (rd A (\<bar>v\<bar> - dz) / rd A (1 - dz)))"
    using applyStickDeadzone_spec [OF wf, of dz v] by (simp add: spec_signed_deadzone_def)
  have out: "?out = clampInt (Math_round (rd A (spec_stick_adjusted A m ?raw * 32767))) (- 32768) 32767"
    if "\<not> isTrigger t" and "effective parsed (axisMappings p) t = Some m"
      and "deadzone m = 1 / 10"
  proof -
    have "0 \<le> deadzone m" using that(3) by simp
    then show ?thesis
      using that(1,2) by (simp add: mapToGamepad_targetField written_def stickClamped_spec [OF wf])
  qed
  have edge: "\<not> isTrigger t \<and> effective parsed (axisMappings p) t = Some m \<and>
        deadzone m = 1 / 10 \<and> spec_bipolar A m ?raw = 1 / 10 \<longrightarrow> ?out = 0"
  proof
    assume a: "\<not> isTrigger t \<and> effective parsed (axisMappings p) t = Some m \<and>
        deadzone m = 1 / 10 \<and> spec_bipolar A m ?raw = 1 / 10"
    then have dz: "deadzone m = 1 / 10" and b: "spec_bipolar A m ?raw = 1 / 10" by blast+
    have "spec_signed_deadzone A (spec_bipolar A m ?raw) (deadzone m) = 0"
      unfolding dz b by (simp add: spec_signed_deadzone_def z)
    then have "spec_stick_adjusted A m ?raw = 0"
      using wf_arith_pow2 [OF wf] by (cases "curve m") (simp_all add: spec_stick_adjusted_def z)
    then have "clampInt (Math_round (rd A (spec_stick_adjusted A m ?raw * 32767))) (- 32768) 32767 = 0"
      by (simp add: clampInt_def Math_round_def z)
    with out a show "?out = 0" by simp
  qed
  have full: "\<not> isTrigger t \<and> effective parsed (axisMappings p) t = Some m \<and>
        deadzone m = 1 / 10 \<and> spec_bipolar A m ?raw = 1 \<and>
        sensitivity m = 1 \<and> curve m = Linear \<longrightarrow> ?out = 32767"
  proof
    assume a: "\<not> isTrigger t \<and> effective parsed (axisMappings p) t = Some m \<and>
        deadzone m = 1 / 10 \<and> spec_bipolar A m ?raw = 1 \<and>
        sensitivity m = 1 \<and> curve m = Linear"
    then have dz: "deadzone m = 1 / 10" and b: "spec_bipolar A m ?raw = 1"
      and sens: "sensitivity m = 1" and cv: "curve m = Linear" by blast+
    let ?a = "rd A (9 / 10)"
    have "rd A (1 / 2) \<le> ?a" by (rule wf_arith_mono [OF wf]) simp
    then have pos: "0 < ?a" by (simp add: wf_arith_half [OF wf])
    have "spec_signed_deadzone A (spec_bipolar A m ?raw) (deadzone m) = rd A (?a / ?a)"
      unfolding dz b by (simp add: spec_signed_deadzone_def)
    also have "\<dots> = 1" using pos by (simp add: one)
    finally have "spec_stick_adjusted A m ?raw = 1"
      using sens cv by (simp add: spec_stick_adjusted_def one)
    then have "clampInt (Math_round (rd A (spec_stick_adjusted A m ?raw * 32767))) (- 32768) 32767
        = 32767"
      by (simp add: clampInt_def Math_round_def rd_32767 [OF wf])
    with out a show "?out = 32767" by simp
  qed
  from gen edge full pipeline show ?thesis by (intro conjI)
qed

text \<open>
  The three examples in exact arithmetic, where a raw value of \<open>11/20\<close> has the bipolar
  value one tenth, and the first and the third in binary64 arithmetic.
\<close>

theorem stick_signed_deadzone_witness:
  "wf_arith exactArith \<and> wf_arith doubleArith
   \<and> applyStickDeadzone exactArith (- 3 / 4) (1 / 2) = - 1 / 2
   \<and> leftStickX (mapToGamepad exactArith xinputDpad 0
        \<lparr>axes = [11 / 20], buttons = [], hatSwitch = - 1\<rparr>
        \<lparr>axisMappings = [exampleStick (1 / 10) 2], buttonMappings = []\<rparr>) = 0
   \<and> leftStickX (mapToGamepad exactArith xinputDpad 0
        \<lparr>axes = [1], buttons = [], hatSwitch = - 1\<rparr>
        \<lparr>axisMappings = [exampleStick (1 / 10) 1], buttonMappings = []\<rparr>) = 32767
   \<and> applyStickDeadzone doubleArith (- 3 / 4) (1 / 2) = - 1 / 2
   \<and> leftStickX (mapToGamepad doubleArith xinputDpad 0
        \<lparr>axes = [1], buttons = [], hatSwitch = - 1\<rparr>
        \<lparr>axisMappings = [exampleStick (1 / 10) 1], buttonMappings = []\<rparr>) = 32767"
proof -
  let ?pa = "\<lparr>axes = [11 / 20], buttons = [], hatSwitch = - 1\<rparr>"
  let ?pb = "\<lparr>axes = [1], buttons = [], hatSwitch = - 1\<rparr>"
  let ?ma = "exampleStick (1 / 10) 2"
  let ?mb = "exampleStick (1 / 10) 1"
  let ?fa = "\<lparr>axisMappings = [?ma], buttonMappings = []\<rparr>"
  let ?fb = "\<lparr>axisMappings = [?mb], buttonMappings = []\<rparr>"
  note ex = stick_signed_deadzone [OF wf_arith_exact]
  note db = stick_signed_deadzone [OF wf_arith_double]
  have nt: "\<not> isTrigger LeftStickX" by (simp add: isTrigger_def)
  have ea: "effective ?pa (axisMappings ?fa) LeftStickX = Some ?ma"
    by (simp add: effective_def exampleStick_def)
  have eb: "effective ?pb (axisMappings ?fb) LeftStickX = Some ?mb"
    by (simp add: effective_def exampleStick_def)
  have ba: "spec_bipolar exactArith ?ma (axes ?pa ! sourceIndex ?ma) = 1 / 10"
    by (simp add: spec_bipolar_def exampleStick_def exactArith_def)
  have bb: "spec_bipolar exactArith ?mb (axes ?pb ! sourceIndex ?mb) = 1"
    by (simp add: spec_bipolar_def exampleStick_def exactArith_def)
  have bd: "spec_bipolar doubleArith ?mb (axes ?pb ! sourceIndex ?mb) = 1"
    by (simp add: spec_bipolar_def exampleStick_def doubleArith_def fl64_one fl64_numeral)
  have da: "deadzone ?ma = 1 / 10" and dzb: "deadzone ?mb = 1 / 10"
    and sb: "sensitivity ?mb = 1" and cb: "curve ?mb = Linear"
    by (simp_all add: exampleStick_def)
  have r: "(0::real) \<le> 1 / 2 \<and> (1 / 2 :: real) \<le> 1 / 2" by simp
  from ex [where dz = "1 / 2" and v = "- 3 / 4"]
  have "(0::real) \<le> 1 / 2 \<and> (1 / 2 :: real) \<le> 1 / 2 \<longrightarrow>
      applyStickDeadzone exactArith (- 3 / 4) (1 / 2) =
        (if \<bar>- 3 / 4 :: real\<bar> < 1 / 2 then 0
         else sgn (- 3 / 4) * rd exactArith (rd exactArith (\<bar>- 3 / 4\<bar> - 1 / 2) / rd exactArith (1 - 1 / 2)))"
    by (rule conjunct1)
  with r have one: "applyStickDeadzone exactArith (- 3 / 4) (1 / 2) = - 1 / 2"
    by (simp add: exactArith_def)
  have two: "targetField LeftStickX (mapToGamepad exactArith xinputDpad 0 ?pa ?fa) = 0"
    using ex [where t = LeftStickX and parsed = ?pa and p = ?fa and m = ?ma and c = xinputDpad
        and slot = 0] nt ea da ba by blast
  have three: "targetField LeftStickX (mapToGamepad exactArith xinputDpad 0 ?pb ?fb) = 32767"
    using ex [where t = LeftStickX and parsed = ?pb and p = ?fb and m = ?mb and c = xinputDpad
        and slot = 0] nt eb dzb bb sb cb by blast
  from db [where dz = "1 / 2" and v = "- 3 / 4"]
  have "(0::real) \<le> 1 / 2 \<and> (1 / 2 :: real) \<le> 1 / 2 \<longrightarrow>
      applyStickDeadzone doubleArith (- 3 / 4) (1 / 2) =
        (if \<bar>- 3 / 4 :: real\<bar> < 1 / 2 then 0
         else sgn (- 3 / 4) * rd doubleArith (rd doubleArith (\<bar>- 3 / 4\<bar> - 1 / 2) / rd doubleArith (1 - 1 / 2)))"
    by (rule conjunct1)
  with r have four: "applyStickDeadzone doubleArith (- 3 / 4) (1 / 2) = - 1 / 2"
    by (simp add: doubleArith_def fl64_quarter fl64_half)
  have five: "targetField LeftStickX (mapToGamepad doubleArith xinputDpad 0 ?pb ?fb) = 32767"
    using db [where t = LeftStickX and parsed = ?pb and p = ?fb and m = ?mb and c = xinputDpad
        and slot = 0] nt eb dzb bd sb cb by blast
  from wf_arith_exact wf_arith_double one two three four five show ?thesis by simp
qed

text \<open>
  The stick value is not clamped to the unit interval before it is scaled.  With
  sensitivity 3 and the raw axis at 0, the adjusted value is \<open>-3\<close> in binary64
  arithmetic as in exact arithmetic: the code writes \<open>-32768\<close>, whereas clamping first
  and scaling afterwards gives \<open>-32767\<close>.
\<close>

theorem stick_preclamp_counterexample:
  "leftStickX (mapToGamepad doubleArith xinputDpad 0
        \<lparr>axes = [0], buttons = [], hatSwitch = - 1\<rparr>
        \<lparr>axisMappings = [exampleStick 0 3], buttonMappings = []\<rparr>) = - 32768
   \<and> spec_stick_scaled doubleArith (spec_stick_adjusted doubleArith (exampleStick 0 3) 0) = - 32767"
  by (simp add: mapToGamepad_def initialGamepadState_def mapAxis_def foldHat_def exampleStick_def
      stickClamped_def applyStickDeadzone_def applyStickCurve_def Math_round_def
      spec_stick_scaled_def spec_stick_adjusted_def spec_signed_deadzone_def spec_bipolar_def
      clamp_def clampInt_def doubleArith_def fl64_zero fl64_one fl64_minus fl64_numeral)

text \<open>
  C1, as the code has it.  In every arithmetic of the kind above, binary64 rounding
  among them: for every axis mapping \<open>m\<close> that names a stick axis, has its source index
  inside the sample and a deadzone between 0 and one half, let \<open>v\<close> be the raw axis made
  bipolar, inverted when asked, and passed through the signed deadzone and the curve,
  each operation rounded by the arithmetic.  The loop body of \<open>mapToGamepad\<close> writes into
  the named stick field the rounded product of \<open>v\<close> and 32767, rounded to an integer by
  \<^verbatim>\<open>Math.round\<close> and then clamped to \<open>-32768..32767\<close>; \<open>v\<close> itself is not clamped first.
  The value always lies in \<open>-32768..32767\<close>.  Whenever \<open>v \<ge> -1\<close> it equals the value
  obtained by clamping \<open>v\<close> to \<open>-1..1\<close> before scaling, and then lies in
  \<open>-32767..32767\<close>; when the rounded product is below \<open>-32767.5\<close> it is \<open>-32768\<close>.  It is
  the stick field of the state that \<open>mapToGamepad\<close> returns when \<open>m\<close> decides the target.
\<close>

theorem mapToGamepad_stick:
  assumes "wf_arith A" and "\<not> isTrigger (target m)" and "sourceIndex m < length (axes parsed)"
    and "0 \<le> deadzone m" and "deadzone m \<le> 1 / 2"
  shows "targetField (target m) (mapAxis A parsed m st) =
           clampInt (Math_round (rd A (spec_stick_adjusted A m (axes parsed ! sourceIndex m) * 32767)))
             (- 32768) 32767
    \<and> - 32768 \<le> targetField (target m) (mapAxis A parsed m st)
    \<and> targetField (target m) (mapAxis A parsed m st) \<le> 32767
    \<and> (- 1 \<le> spec_stick_adjusted A m (axes parsed ! sourceIndex m) \<longrightarrow>
         targetField (target m) (mapAxis A parsed m st) =
           spec_stick_scaled A (spec_stick_adjusted A m (axes parsed ! sourceIndex m))
         \<and> - 32767 \<le> targetField (target m) (mapAxis A parsed m st))
    \<and> (rd A (spec_stick_adjusted A m (axes parsed ! sourceIndex m) * 32767) < - 65535 / 2 \<longrightarrow>
         targetField (target m) (mapAxis A parsed m st) = - 32768)
    \<and> (effective parsed (axisMappings p) (target m) = Some m \<longrightarrow>
         targetField (target m) (mapToGamepad A c slot parsed p) =
           targetField (target m) (mapAxis A parsed m st))"
proof -
  let ?v = "spec_stick_adjusted A m (axes parsed ! sourceIndex m)"
  let ?w = "targetField (target m) (mapAxis A parsed m st)"
  note wf = assms(1)
  have w: "?w = clampInt (Math_round (rd A (?v * 32767))) (- 32768) 32767"
    using assms(2,3,4) by (simp add: mapAxis_targetField written_def stickClamped_spec [OF wf])
  have range: "- 32768 \<le> ?w \<and> ?w \<le> 32767"
    unfolding w by (rule clampInt_range) simp
  from range have lo: "- 32768 \<le> ?w" and hi: "?w \<le> 32767" by blast+
  have agree: "- 1 \<le> ?v \<longrightarrow> ?w = spec_stick_scaled A ?v \<and> - 32767 \<le> ?w"
  proof
    assume "- 1 \<le> ?v"
    with wf have "?w = spec_stick_scaled A ?v"
      unfolding w by (rule stick_scaled_agree)
    then show "?w = spec_stick_scaled A ?v \<and> - 32767 \<le> ?w"
      using spec_stick_scaled_range [OF wf, of ?v] by simp
  qed
  have below: "rd A (?v * 32767) < - 65535 / 2 \<longrightarrow> ?w = - 32768"
  proof
    assume "rd A (?v * 32767) < - 65535 / 2"
    then have "rd A (?v * 32767) + 1 / 2 < of_int (- 32767)" by simp
    then have "\<lfloor>rd A (?v * 32767) + 1 / 2\<rfloor> < - 32767" by (simp only: floor_less_iff)
    then show "?w = - 32768"
      unfolding w by (simp add: clampInt_def Math_round_def)
  qed
  have final: "effective parsed (axisMappings p) (target m) = Some m \<longrightarrow>
         targetField (target m) (mapToGamepad A c slot parsed p) = ?w"
    using assms(3) by (simp add: mapToGamepad_targetField mapAxis_targetField)
  from w lo hi agree below final show ?thesis by (intro conjI)
qed

text \<open>
  In binary64 arithmetic: a raw value of three quarters with deadzone one eighth,
  sensitivity \<open>3/2\<close> and the linear curve gives 21064, the product before
  \<^verbatim>\<open>Math.round\<close> being just below \<open>21064.5\<close>; the raw value 0 with sensitivity 3 gives
  \<open>-32768\<close>.
\<close>

theorem mapToGamepad_stick_witness:
  "wf_arith doubleArith
   \<and> \<not> isTrigger (target (exampleStick (1 / 8) (3 / 2)))
   \<and> sourceIndex (exampleStick (1 / 8) (3 / 2))
       < length (axes \<lparr>axes = [3 / 4], buttons = [], hatSwitch = - 1\<rparr>)
   \<and> 0 \<le> deadzone (exampleStick (1 / 8) (3 / 2))
   \<and> deadzone (exampleStick (1 / 8) (3 / 2)) \<le> 1 / 2
   \<and> leftStickX (mapToGamepad doubleArith xinputDpad 0
          \<lparr>axes = [3 / 4], buttons = [], hatSwitch = - 1\<rparr>
          \<lparr>axisMappings = [exampleStick (1 / 8) (3 / 2)], buttonMappings = []\<rparr>) = 21064
   \<and> leftStickX (mapToGamepad doubleArith xinputDpad 0
          \<lparr>axes = [0], buttons = [], hatSwitch = - 1\<rparr>
          \<lparr>axisMappings = [exampleStick 0 3], buttonMappings = []\<rparr>) = - 32768"
proof -
  let ?A = doubleArith
  let ?m = "exampleStick (1 / 8) (3 / 2)"
  let ?parsed = "\<lparr>axes = [3 / 4], buttons = [], hatSwitch = - 1\<rparr>"
  let ?p = "\<lparr>axisMappings = [?m], buttonMappings = []\<rparr>"
  let ?n = "exampleStick 0 3"
  let ?parsed' = "\<lparr>axes = [0], buttons = [], hatSwitch = - 1\<rparr>"
  let ?p' = "\<lparr>axisMappings = [?n], buttonMappings = []\<rparr>"
  have tg: "target ?m = LeftStickX" and tg': "target ?n = LeftStickX"
    by (simp_all add: exampleStick_def)
  have nt: "\<not> isTrigger (target ?m)" and nt': "\<not> isTrigger (target ?n)"
    by (simp_all add: isTrigger_def exampleStick_def)
  have i: "sourceIndex ?m < length (axes ?parsed)"
    and i': "sourceIndex ?n < length (axes ?parsed')"
    by (simp_all add: exampleStick_def)
  have e: "effective ?parsed (axisMappings ?p) (target ?m) = Some ?m"
    and e': "effective ?parsed' (axisMappings ?p') (target ?n) = Some ?n"
    by (simp_all add: effective_def exampleStick_def)
  have d0: "0 \<le> deadzone ?m" and d1: "deadzone ?m \<le> 1 / 2"
    and d0': "0 \<le> deadzone ?n" and d1': "deadzone ?n \<le> 1 / 2"
    by (simp_all add: exampleStick_def)
  have r: "axes ?parsed ! sourceIndex ?m = 3 / 4" and r': "axes ?parsed' ! sourceIndex ?n = 0"
    by (simp_all add: exampleStick_def)
  note inst = mapToGamepad_stick [OF wf_arith_double nt i d0 d1,
      of "initialGamepadState 0" ?p xinputDpad 0]
  note inst' = mapToGamepad_stick [OF wf_arith_double nt' i' d0' d1',
      of "initialGamepadState 0" ?p' xinputDpad 0]
  from inst have val: "targetField (target ?m) (mapAxis ?A ?parsed ?m (initialGamepadState 0)) =
      clampInt (Math_round (rd ?A
        (spec_stick_adjusted ?A ?m (axes ?parsed ! sourceIndex ?m) * 32767))) (- 32768) 32767"
    by (rule conjunct1)
  from inst have final: "effective ?parsed (axisMappings ?p) (target ?m) = Some ?m \<longrightarrow>
      targetField (target ?m) (mapToGamepad ?A xinputDpad 0 ?parsed ?p) =
        targetField (target ?m) (mapAxis ?A ?parsed ?m (initialGamepadState 0))"
    by (elim conjE)
  from final e have "targetField (target ?m) (mapToGamepad ?A xinputDpad 0 ?parsed ?p) =
        targetField (target ?m) (mapAxis ?A ?parsed ?m (initialGamepadState 0))"
    by blast
  also have "\<dots> = 21064"
    unfolding val r by (rule stick_example_linear)
  finally have a: "leftStickX (mapToGamepad ?A xinputDpad 0 ?parsed ?p) = 21064"
    unfolding tg by simp
  from inst' have below: "rd ?A (spec_stick_adjusted ?A ?n (axes ?parsed' ! sourceIndex ?n) * 32767)
        < - 65535 / 2 \<longrightarrow>
      targetField (target ?n) (mapAxis ?A ?parsed' ?n (initialGamepadState 0)) = - 32768"
    by (elim conjE)
  from inst' have final': "effective ?parsed' (axisMappings ?p') (target ?n) = Some ?n \<longrightarrow>
      targetField (target ?n) (mapToGamepad ?A xinputDpad 0 ?parsed' ?p') =
        targetField (target ?n) (mapAxis ?A ?parsed' ?n (initialGamepadState 0))"
    by (elim conjE)
  have "rd ?A (spec_stick_adjusted ?A ?n (axes ?parsed' ! sourceIndex ?n) * 32767) < - 65535 / 2"
    unfolding r' stick_example_below by simp
  with below final' e'
  have "targetField (target ?n) (mapToGamepad ?A xinputDpad 0 ?parsed' ?p') = - 32768"
    by simp
  then have b: "leftStickX (mapToGamepad ?A xinputDpad 0 ?parsed' ?p') = - 32768"
    unfolding tg' by simp
  from wf_arith_double nt i d0 d1 a b show ?thesis by (intro conjI)
qed

section \<open>Stopping a capture\<close>

lemma sendConnectedState_False:
  "sendConnectedState False s =
     s\<lparr>sent := sent s @ (if liveWindow s then disconnectMessages s else [])\<rparr>"
  by (cases "mainWindow s")
    (simp_all add: sendConnectedState_def liveWindow_def disconnectMessages_def Let_def)

lemma stopCapture_idle:
  assumes "device s = None" and "\<not> truthy (devicePath s)"
  shows "stopCapture s = s"
  unfolding stopCapture_def Let_def
  by (simp only: assms option.case if_False)

lemma stopCapture_result:
  "device (stopCapture s) = None \<and> \<not> truthy (devicePath (stopCapture s))"
  by (cases "device s")
    (auto simp: stopCapture_def hid_close_def truthy_def sendConnectedState_False Let_def
      split: option.splits)

lemma stopCapture_idem: "stopCapture (stopCapture s) = stopCapture s"
proof -
  from stopCapture_result [of s]
  have a: "device (stopCapture s) = None" and b: "\<not> truthy (devicePath (stopCapture s))"
    by blast+
  from a b show ?thesis by (rule stopCapture_idle)
qed

lemma stopCapture_sent:
  "sent (stopCapture s) =
     sent s @ (if truthy (devicePath s) \<and> liveWindow s then disconnectMessages s else [])"
  by (cases "device s")
    (simp_all add: stopCapture_def hid_close_def sendConnectedState_False liveWindow_def
      disconnectMessages_def Let_def)

lemma disconnectMessages_count:
  "length (filter isDisconnectedUpdate (disconnectMessages s)) = 1"
  by (simp add: disconnectMessages_def)

lemma disconnectMessages_closed:
  "disconnectMessages (s\<lparr>closeCalls := cs, device := dv\<rparr>) = disconnectMessages s"
  by (simp add: disconnectMessages_def)

lemma stopCapture_active:
  assumes "device s = Some d" and "devicePath s = Some path" and "path \<noteq> []"
  shows "stopCapture s =
           s\<lparr>device := None, devicePath := None, lastGamepadState := None,
             lastRawBytes := [], closeCalls := closeCalls s @ [handleId d],
             sent := sent s @ (if liveWindow s then disconnectMessages s else [])\<rparr>"
  using assms
  by (cases "closeThrows d")
    (simp_all add: stopCapture_def hid_close_def truthy_def sendConnectedState_False
        liveWindow_def disconnectMessages_closed Let_def)

text \<open>
  A capture can be active while no window is attached; stopping it then sends nothing,
  neither the disconnected state update nor the neutral gamepad state.
\<close>

theorem stopCapture_no_window_counterexample:
  "isCapturing (capturingService None)
   \<and> filter isDisconnectedUpdate (sent (stopCapture (capturingService None))) = []
   \<and> filter isGamepadUpdate (sent (stopCapture (capturingService None))) = []"
proof -
  have "liveWindow (capturingService None) = False"
    by (simp add: liveWindow_def capturingService_def)
  moreover have "sent (capturingService None) = []"
    by (simp add: capturingService_def newService_def)
  moreover have "isCapturing (capturingService None)"
    by (simp add: isCapturing_def capturingService_def)
  ultimately show ?thesis by (simp add: stopCapture_sent)
qed

text \<open>
  C9, as the code has it.  \<open>stopCapture\<close> is idempotent: a second call right after the
  first changes nothing and sends nothing, so two calls send at most one disconnected
  state update.  When a device is open and the retained device path is a non-empty
  string, the first call calls \<open>close()\<close> on the handle once, whether or not that
  raises, forgets the handle, the path, the last gamepad state and the last raw bytes,
  and, provided a window is attached and not destroyed, sends exactly the disconnected
  state update followed by the gamepad state with every numeric field zero and
  \<open>connected\<close> false; without such a window it sends nothing.
\<close>

theorem stopCapture_spec:
  "stopCapture (stopCapture s) = stopCapture s
   \<and> length (filter isDisconnectedUpdate (sent (stopCapture (stopCapture s))))
       \<le> length (filter isDisconnectedUpdate (sent s)) + 1
   \<and> (\<forall>d path. device s = Some d \<and> devicePath s = Some path \<and> path \<noteq> [] \<longrightarrow>
         stopCapture s =
           s\<lparr>device := None, devicePath := None, lastGamepadState := None,
             lastRawBytes := [], closeCalls := closeCalls s @ [handleId d],
             sent := sent s @ (if liveWindow s then disconnectMessages s else [])\<rparr>)"
proof -
  have idem: "stopCapture (stopCapture s) = stopCapture s" by (rule stopCapture_idem)
  have count: "length (filter isDisconnectedUpdate (sent (stopCapture (stopCapture s))))
       \<le> length (filter isDisconnectedUpdate (sent s)) + 1"
    unfolding idem by (simp add: stopCapture_sent disconnectMessages_count)
  have active: "\<forall>d path. device s = Some d \<and> devicePath s = Some path \<and> path \<noteq> [] \<longrightarrow>
         stopCapture s =
           s\<lparr>device := None, devicePath := None, lastGamepadState := None,
             lastRawBytes := [], closeCalls := closeCalls s @ [handleId d],
             sent := sent s @ (if liveWindow s then disconnectMessages s else [])\<rparr>"
    using stopCapture_active [of s] by blast
  from idem count active show ?thesis by (intro conjI)
qed

theorem stopCapture_spec_witness:
  "device (capturingService (Some \<lparr>isDestroyed = False\<rparr>)) =
       Some \<lparr>handleId = 1, closeThrows = True\<rparr>
   \<and> devicePath (capturingService (Some \<lparr>isDestroyed = False\<rparr>)) = Some ''hid0''
   \<and> ''hid0'' \<noteq> []
   \<and> sent (stopCapture (capturingService (Some \<lparr>isDestroyed = False\<rparr>))) =
       disconnectMessages (capturingService (Some \<lparr>isDestroyed = False\<rparr>))
   \<and> sent (stopCapture (stopCapture (capturingService (Some \<lparr>isDestroyed = False\<rparr>)))) =
       disconnectMessages (capturingService (Some \<lparr>isDestroyed = False\<rparr>))
   \<and> lastGamepadState (stopCapture (capturingService (Some \<lparr>isDestroyed = False\<rparr>))) = None
   \<and> closeCalls (stopCapture (capturingService (Some \<lparr>isDestroyed = False\<rparr>))) = [1]"
proof -
  define s where "s = capturingService (Some \<lparr>isDestroyed = False\<rparr>)"
  define d where "d = \<lparr>handleId = 1, closeThrows = True\<rparr>"
  have dv: "device s = Some d"
    by (simp add: s_def d_def capturingService_def)
  have dp: "devicePath s = Some ''hid0''"
    by (simp add: s_def capturingService_def)
  have ne: "''hid0'' \<noteq> []" by simp
  have live: "liveWindow s"
    by (simp add: s_def capturingService_def liveWindow_def)
  have s0: "sent s = []"
    by (simp add: s_def capturingService_def newService_def)
  have c0: "closeCalls s = []"
    by (simp add: s_def capturingService_def newService_def)
  have hd: "handleId d = 1" by (simp add: d_def)
  note spec = stopCapture_spec [of s]
  have idem: "stopCapture (stopCapture s) = stopCapture s"
    by (rule conjunct1 [OF spec])
  have pre: "device s = Some d \<and> devicePath s = Some ''hid0'' \<and> ''hid0'' \<noteq> []"
    using dv dp ne by (intro conjI)
  have eq: "stopCapture s =
           s\<lparr>device := None, devicePath := None, lastGamepadState := None,
             lastRawBytes := [], closeCalls := closeCalls s @ [handleId d],
             sent := sent s @ (if liveWindow s then disconnectMessages s else [])\<rparr>"
    by (rule conjunct2 [OF conjunct2 [OF spec], rule_format, OF pre])
  have a: "sent (stopCapture s) = disconnectMessages s"
    unfolding eq by (simp add: live s0)
  have b: "lastGamepadState (stopCapture s) = None"
    unfolding eq by simp
  have c: "closeCalls (stopCapture s) = [1]"
    unfolding eq by (simp add: c0 hd)
  have a2: "sent (stopCapture (stopCapture s)) = disconnectMessages s"
    unfolding idem by (rule a)
  from dv dp ne a a2 b c show ?thesis
    unfolding s_def d_def by (intro conjI)
qed

end
